theory Spec2Isabelle
  imports Complex_Main "HOL-Library.Sublist" "HOL-Library.Multiset"
begin

section \<open>Numbers and values of the source language\<close>

text \<open>
  The program is JavaScript. A finite number is modelled by an exact rational, so the
  binary rounding and the overflow of IEEE doubles are outside the model. The one special
  value that the program produces from finite numbers and absent fields, \<open>NaN\<close>
  (arithmetic on \<open>undefined\<close>), is kept, with the comparisons and the truth value the
  language gives it.
\<close>

datatype jsnum = Num rat | NaN

fun jsadd :: "jsnum \<Rightarrow> jsnum \<Rightarrow> jsnum" where
  "jsadd (Num a) (Num b) = Num (a + b)"
| "jsadd _ _ = NaN"

fun jssub :: "jsnum \<Rightarrow> jsnum \<Rightarrow> jsnum" where
  "jssub (Num a) (Num b) = Num (a - b)"
| "jssub _ _ = NaN"

fun jsmul :: "jsnum \<Rightarrow> jsnum \<Rightarrow> jsnum" where
  "jsmul (Num a) (Num b) = Num (a * b)"
| "jsmul _ _ = NaN"

text \<open>Division by a numeric literal other than zero (the program divides by \<open>100\<close> only).\<close>

fun jsdiv_literal :: "jsnum \<Rightarrow> rat \<Rightarrow> jsnum" where
  "jsdiv_literal (Num a) c = Num (a / c)"
| "jsdiv_literal NaN c = NaN"

text \<open>\<open>ToNumber\<close> of a value that is a number or \<open>undefined\<close>.\<close>

fun to_number :: "jsnum option \<Rightarrow> jsnum" where
  "to_number None = NaN"
| "to_number (Some n) = n"

text \<open>Reading an optional numeric field of an input object.\<close>

definition read_field :: "rat option \<Rightarrow> jsnum option" where
  "read_field v = map_option Num v"

text \<open>\<open>ToBoolean\<close> of a value that is a number or \<open>undefined\<close>.\<close>

fun truthy :: "jsnum option \<Rightarrow> bool" where
  "truthy None = False"
| "truthy (Some NaN) = False"
| "truthy (Some (Num x)) = (x \<noteq> 0)"

text \<open>The expression \<open>v || 0\<close>.\<close>

definition or_zero :: "jsnum option \<Rightarrow> jsnum" where
  "or_zero v = (if truthy v then to_number v else Num 0)"

text \<open>The comparisons \<open>a > 0\<close> and \<open>a >= b\<close>: false when an operand is \<open>NaN\<close>.\<close>

fun gt_zero :: "jsnum \<Rightarrow> bool" where
  "gt_zero (Num x) = (0 < x)"
| "gt_zero NaN = False"

fun jsge :: "jsnum \<Rightarrow> jsnum \<Rightarrow> bool" where
  "jsge (Num a) (Num b) = (b \<le> a)"
| "jsge _ _ = False"

fun is_number :: "jsnum \<Rightarrow> bool" where
  "is_number (Num x) = True"
| "is_number NaN = False"

fun the_rat :: "jsnum \<Rightarrow> rat" where
  "the_rat (Num x) = x"
| "the_rat NaN = 0"

text \<open>
  \<open>+(x.toFixed(2))\<close>: \<open>toFixed\<close> takes the sign off, picks the integer \<open>n\<close> with
  \<open>n / 100\<close> closest to the magnitude (the larger one of two), and prints it; from
  \<open>10\<^sup>2\<^sup>1\<close> on it prints the number itself. \<open>NaN\<close> prints as \<open>NaN\<close>.
\<close>

fun toFixed2 :: "jsnum \<Rightarrow> jsnum" where
  "toFixed2 NaN = NaN"
| "toFixed2 (Num x) =
     (if 10 ^ 21 \<le> \<bar>x\<bar> then Num x
      else Num (sgn x * rat_of_int \<lfloor>\<bar>x\<bar> * 100 + 1 / 2\<rfloor> / 100))"

section \<open>Objects used as dictionaries\<close>

text \<open>
  \<open>sellerIndex\<close>, \<open>productIndex\<close> and every \<open>products_sold\<close> are object literals
  \<open>{}\<close> indexed by identifiers. Reading \<open>obj[k]\<close> finds an own property of the object
  or, failing that, a member that every object inherits from \<open>Object.prototype\<close>; only
  when there is neither, the result is \<open>undefined\<close>. The inherited members are
  functions, and for \<open>__proto__\<close> the prototype object itself: all of them are truthy,
  none of them has a property \<open>products_sold\<close> or \<open>purchase_price\<close>, and added to a
  number they give a string.
\<close>

datatype 'a lookup = Missing | Own 'a | Inherited

definition inherited_names :: "string list" where
  "inherited_names =
     [''constructor'', ''__defineGetter__'', ''__defineSetter__'', ''hasOwnProperty'',
      ''__lookupGetter__'', ''__lookupSetter__'', ''isPrototypeOf'', ''propertyIsEnumerable'',
      ''toString'', ''valueOf'', ''__proto__'', ''toLocaleString'']"

definition lookup_prop :: "(string \<rightharpoonup> 'a) \<Rightarrow> string \<Rightarrow> 'a lookup" where
  "lookup_prop own k =
     (case own k of
        Some v \<Rightarrow> Own v
      | None \<Rightarrow> if k \<in> set inherited_names then Inherited else Missing)"

text \<open>
  A value stored in \<open>products_sold\<close>: a number, or the string that results from adding a
  number to an inherited member or to such a string. The string is never empty and is
  not a numeral; its characters depend on the engine and are not modelled.
\<close>

datatype jsval = Number jsnum | Text

text \<open>\<open>ToBoolean\<close> of what \<open>products_sold[k]\<close> returns.\<close>

fun val_truthy :: "jsval lookup \<Rightarrow> bool" where
  "val_truthy Missing = False"
| "val_truthy Inherited = True"
| "val_truthy (Own Text) = True"
| "val_truthy (Own (Number n)) = truthy (Some n)"

text \<open>The operator \<open>+\<close> applied to what \<open>products_sold[k]\<close> returns and the number of a quantity.\<close>

fun val_plus :: "jsval lookup \<Rightarrow> jsnum \<Rightarrow> jsval" where
  "val_plus (Own (Number n)) q = Number (jsadd n q)"
| "val_plus (Own Text) q = Text"
| "val_plus Inherited q = Text"
| "val_plus Missing q = Number NaN"

text \<open>\<open>ToNumber\<close> of a stored value, as the subtraction in a comparator applies it.\<close>

fun val_number :: "jsval \<Rightarrow> jsnum" where
  "val_number (Number n) = n"
| "val_number Text = NaN"

fun is_quantity :: "jsval \<Rightarrow> bool" where
  "is_quantity (Number n) = is_number n"
| "is_quantity Text = False"

text \<open>
  The own properties of \<open>products_sold\<close>, in creation order. Assigning to an existing key
  keeps its place and a new key goes to the end. An assignment of a number or a string
  to the key \<open>__proto__\<close> runs the setter of that name, which ignores such values, and
  creates no property.
\<close>

type_synonym obj = "(string \<times> jsval) list"

definition obj_get :: "obj \<Rightarrow> string \<Rightarrow> jsval lookup" where
  "obj_get ob k = lookup_prop (map_of ob) k"

fun obj_set :: "obj \<Rightarrow> string \<Rightarrow> jsval \<Rightarrow> obj" where
  "obj_set [] k v = [(k, v)]"
| "obj_set ((k', v') # ob) k v =
     (if k' = k then (k, v) # ob else (k', v') # obj_set ob k v)"

definition obj_assign :: "obj \<Rightarrow> string \<Rightarrow> jsval \<Rightarrow> obj" where
  "obj_assign ob k v = (if k = ''__proto__'' then ob else obj_set ob k v)"

section \<open>Data model\<close>

text \<open>
  The input objects are typed. The numeric fields \<open>discount\<close>, \<open>quantity\<close>,
  \<open>total_amount\<close> and \<open>purchase_price\<close> are \<open>rat option\<close>, with \<open>None\<close> for an absent
  field (\<open>undefined\<close>); \<open>items\<close>, \<open>sellers\<close>, \<open>products\<close> and \<open>purchase_records\<close> are
  \<open>'a list option\<close>, with \<open>None\<close> for every value for which \<open>Array.isArray\<close> is false
  (absent, or not an array). Identifiers and SKUs are the strings used as property keys.
  The field \<open>id\<close> of a seller is \<open>id_of\<close>, the field \<open>sku\<close> of an item is \<open>item_sku\<close> and
  the field \<open>seller_id\<close> of a purchase record is \<open>record_seller_id\<close>. The two policies are
  total functions that return a number of the source language and have no effect.

  One kind of input is not modelled: a seller whose identifier, or a product whose SKU,
  is \<open>__proto__\<close>. Storing an object under that key replaces the prototype of the index
  instead of adding a property. The statements about the aggregation exclude it by a
  hypothesis.
\<close>

record seller =
  id_of :: string
  first_name :: string
  last_name :: string

record product =
  sku :: string
  purchase_price :: "rat option"

record item =
  item_sku :: string
  quantity :: "rat option"
  discount :: "rat option"
  sale_price :: rat

record purchase_record =
  record_seller_id :: string
  total_amount :: "rat option"
  items :: "item list option"

record sales_data =
  sellers :: "seller list option"
  products :: "product list option"
  purchase_records :: "purchase_record list option"

text \<open>
  What \<open>productIndex[item.sku]\<close> holds when it is not \<open>undefined\<close>, and what the revenue
  policy receives as its second argument: a product of the catalogue, or the inherited
  member of that name.
\<close>

datatype product_arg = Product product | Inherited_member string

fun purchase_price_of :: "product_arg \<Rightarrow> jsnum option" where
  "purchase_price_of (Product p) = read_field (purchase_price p)"
| "purchase_price_of (Inherited_member k) = None"

record seller_stat =
  seller_id :: string
  name :: string
  revenue :: jsnum
  profit :: jsnum
  sales_count :: nat
  products_sold :: obj

record report =
  report_seller_id :: string
  report_name :: string
  report_revenue :: jsnum
  report_profit :: jsnum
  report_sales_count :: nat
  report_top_products :: "(string \<times> jsval) list"
  report_bonus :: jsnum

text \<open>
  The options: each policy is \<open>None\<close> when the property is missing, falsy or not a
  function. The argument itself is falsy, or a truthy value whose \<open>typeof\<close> is not
  \<open>"object"\<close> (a function, say, which can carry both properties), or an object.
\<close>

record sales_options =
  calculateRevenue :: "(item \<Rightarrow> product_arg \<Rightarrow> jsnum) option"
  calculateBonus :: "(int \<Rightarrow> int \<Rightarrow> seller_stat \<Rightarrow> jsnum) option"

datatype options_arg =
  Falsy_options | Non_object_options sales_options | Object_options sales_options

datatype error = InvalidInput | InvalidOptions | TypeError

section \<open>The two default policies\<close>

text \<open>\<open>calculateSimpleRevenue\<close> of \<open>src/src/main.js\<close>.\<close>

definition calculateSimpleRevenue :: "item \<Rightarrow> product_arg \<Rightarrow> jsnum" where
  "calculateSimpleRevenue purchase product_unused =
     (if truthy (read_field (discount purchase)) \<and> gt_zero (to_number (read_field (discount purchase)))
      then
        let total' = jsmul (Num (sale_price purchase)) (to_number (read_field (quantity purchase)));
            rebate = jsmul total'
                       (jssub (Num 1) (jsdiv_literal (to_number (read_field (discount purchase))) 100))
        in rebate
      else jsmul (Num (sale_price purchase)) (to_number (read_field (quantity purchase))))"

text \<open>\<open>calculateSimpleRevenue\<close> of \<open>src/unnamed/part_000\<close>: one expression, same association.\<close>

definition calculateSimpleRevenue_part000 :: "item \<Rightarrow> product_arg \<Rightarrow> jsnum" where
  "calculateSimpleRevenue_part000 purchase product_unused =
     (if truthy (read_field (discount purchase)) \<and> gt_zero (to_number (read_field (discount purchase)))
      then jsmul (jsmul (Num (sale_price purchase)) (to_number (read_field (quantity purchase))))
             (jssub (Num 1) (jsdiv_literal (to_number (read_field (discount purchase))) 100))
      else jsmul (Num (sale_price purchase)) (to_number (read_field (quantity purchase))))"

text \<open>
  \<open>calculateBonusByProfit\<close>: the same text in both files (the literal is \<open>0.1\<close> in one
  and \<open>0.10\<close> in the other).
\<close>

definition calculateBonusByProfit :: "int \<Rightarrow> int \<Rightarrow> seller_stat \<Rightarrow> jsnum" where
  "calculateBonusByProfit index total' seller =
     (if index = 0 then jsmul (profit seller) (Num (15 / 100))
      else if index < 3 then jsmul (profit seller) (Num (1 / 10))
      else if index = total' - 1 then Num 0
      else jsmul (profit seller) (Num (5 / 100)))"

section \<open>Library behaviour the program relies on\<close>

text \<open>
  \<open>Object.entries\<close> lists the own properties of an object in the language's property
  order: first the keys that are array indices (the canonical decimal numerals of
  \<open>0 .. 2\<^sup>3\<^sup>2 - 2\<close>) in ascending numeric order, then every other key in creation order.
\<close>

definition is_digit :: "char \<Rightarrow> bool" where
  "is_digit c = (48 \<le> (of_char c :: int) \<and> (of_char c :: int) \<le> 57)"

definition decimal_value :: "string \<Rightarrow> int" where
  "decimal_value k = foldl (\<lambda>n c. 10 * n + ((of_char c :: int) - 48)) 0 k"

definition is_array_index :: "string \<Rightarrow> bool" where
  "is_array_index k =
     (k \<noteq> [] \<and> list_all is_digit k \<and> (k = ''0'' \<or> hd k \<noteq> CHR ''0'')
      \<and> decimal_value k \<le> 4294967294)"

definition object_entries :: "obj \<Rightarrow> (string \<times> jsval) list" where
  "object_entries ob =
     sort_key (\<lambda>e. decimal_value (fst e)) (filter (\<lambda>e. is_array_index (fst e)) ob)
     @ filter (\<lambda>e. \<not> is_array_index (fst e)) ob"

text \<open>
  \<open>Array.prototype.sort\<close> with a comparator is a stable sort: \<open>a\<close> goes after \<open>b\<close>
  when \<open>cmp a b > 0\<close>, and a comparator result that is \<open>NaN\<close> counts as \<open>0\<close>. The
  model is the stable insertion sort. For a consistent comparator every stable sort
  gives the same list; for an inconsistent one (a key that is \<open>NaN\<close>) the language
  leaves the order to the engine, and the general statements below assume numeric keys.
\<close>

fun insert_cmp :: "('a \<Rightarrow> 'a \<Rightarrow> jsnum) \<Rightarrow> 'a \<Rightarrow> 'a list \<Rightarrow> 'a list" where
  "insert_cmp cmp x [] = [x]"
| "insert_cmp cmp x (y # ys) =
     (if gt_zero (cmp x y) then y # insert_cmp cmp x ys else x # y # ys)"

definition js_sort :: "('a \<Rightarrow> 'a \<Rightarrow> jsnum) \<Rightarrow> 'a list \<Rightarrow> 'a list" where
  "js_sort cmp xs = foldr (insert_cmp cmp) xs []"

text \<open>A \<open>forEach\<close> whose body may raise: the first error ends the loop and the call.\<close>

fun forEach_raising :: "('s \<Rightarrow> 'a \<Rightarrow> error + 's) \<Rightarrow> 'a list \<Rightarrow> 's \<Rightarrow> error + 's" where
  "forEach_raising f [] st = Inr st"
| "forEach_raising f (x # xs) st =
     (case f st x of Inl e \<Rightarrow> Inl e | Inr st' \<Rightarrow> forEach_raising f xs st')"

section \<open>The aggregator of \<open>src/src/main.js\<close>\<close>

text \<open>The accumulator created for one seller by \<open>data.sellers.map\<close>.\<close>

definition init_stat :: "seller \<Rightarrow> seller_stat" where
  "init_stat s =
     \<lparr>seller_id = id_of s, name = first_name s @ '' '' @ last_name s,
      revenue = Num 0, profit = Num 0, sales_count = 0, products_sold = []\<rparr>"

text \<open>
  The own properties of \<open>sellerIndex\<close>: a seller identifier maps to an accumulator object
  of \<open>sellerStats\<close>. The model names the object by its position in \<open>sellerStats\<close>; a
  later seller with the same identifier overwrites the entry, as the assignment in the
  loop does. The own properties of \<open>productIndex\<close> map a SKU to its product.
\<close>

definition build_sellerIndex :: "seller_stat list \<Rightarrow> (string \<rightharpoonup> nat)" where
  "build_sellerIndex sellerStats =
     fold (\<lambda>i idx. idx(seller_id (sellerStats ! i) \<mapsto> i)) [0..<length sellerStats] Map.empty"

definition build_productIndex :: "product list \<Rightarrow> (string \<rightharpoonup> product)" where
  "build_productIndex ps = fold (\<lambda>p idx. idx(sku p \<mapsto> p)) ps Map.empty"

text \<open>The value of \<open>productIndex[item.sku]\<close>, \<open>None\<close> for \<open>undefined\<close>.\<close>

definition product_at :: "(string \<rightharpoonup> product) \<Rightarrow> string \<Rightarrow> product_arg option" where
  "product_at productIndex k =
     (case lookup_prop productIndex k of
        Missing \<Rightarrow> None
      | Own p \<Rightarrow> Some (Product p)
      | Inherited \<Rightarrow> Some (Inherited_member k))"

text \<open>The body of \<open>record.items.forEach\<close>, for a seller that is an accumulator.\<close>

definition process_item ::
  "(item \<Rightarrow> product_arg \<Rightarrow> jsnum) \<Rightarrow> (string \<rightharpoonup> product) \<Rightarrow> seller_stat \<Rightarrow> item \<Rightarrow> seller_stat" where
  "process_item calcRevenue productIndex seller it =
     (case product_at productIndex (item_sku it) of
        None \<Rightarrow> seller
      | Some p \<Rightarrow>
          let cost = jsmul (to_number (purchase_price_of p)) (or_zero (read_field (quantity it)));
              revenue' = calcRevenue it p;
              itemProfit = jssub revenue' cost;
              seller1 = seller\<lparr>profit := jsadd (profit seller) itemProfit\<rparr>;
              sold1 = (if \<not> val_truthy (obj_get (products_sold seller1) (item_sku it))
                       then obj_assign (products_sold seller1) (item_sku it) (Number (Num 0))
                       else products_sold seller1);
              sold2 = obj_assign sold1 (item_sku it)
                        (val_plus (obj_get sold1 (item_sku it)) (or_zero (read_field (quantity it))))
          in seller1\<lparr>products_sold := sold2\<rparr>)"

text \<open>
  The body of \<open>data.purchase_records.forEach\<close>. When \<open>sellerIndex[record.seller_id]\<close> is
  an inherited member, the test \<open>!seller\<close> lets it pass: the counters are then written to
  that member and no accumulator changes, and for the first item whose product lookup
  is not \<open>undefined\<close> the expression \<open>seller.products_sold[item.sku]\<close> reads a property of
  \<open>undefined\<close>, which raises a \<open>TypeError\<close>.
\<close>

definition process_record ::
  "(item \<Rightarrow> product_arg \<Rightarrow> jsnum) \<Rightarrow> (string \<rightharpoonup> nat) \<Rightarrow> (string \<rightharpoonup> product)
     \<Rightarrow> seller_stat list \<Rightarrow> purchase_record \<Rightarrow> error + seller_stat list" where
  "process_record calcRevenue sellerIndex productIndex sellerStats r =
     (case lookup_prop sellerIndex (record_seller_id r) of
        Missing \<Rightarrow> Inr sellerStats
      | Own i \<Rightarrow>
          let seller = sellerStats ! i;
              seller1 = seller\<lparr>sales_count := sales_count seller + 1\<rparr>;
              seller2 = seller1\<lparr>revenue := jsadd (revenue seller1) (or_zero (read_field (total_amount r)))\<rparr>;
              seller3 = (case items r of
                           None \<Rightarrow> seller2
                         | Some its \<Rightarrow> fold (\<lambda>it s. process_item calcRevenue productIndex s it) its seller2)
          in Inr (sellerStats[i := seller3])
      | Inherited \<Rightarrow>
          (case items r of
             None \<Rightarrow> Inr sellerStats
           | Some its \<Rightarrow>
               if list_ex (\<lambda>it. product_at productIndex (item_sku it) \<noteq> None) its
               then Inl TypeError else Inr sellerStats))"

text \<open>Everything up to the sort: the accumulators, in the order of the input sellers.\<close>

definition aggregate ::
  "(item \<Rightarrow> product_arg \<Rightarrow> jsnum) \<Rightarrow> seller list \<Rightarrow> sales_data \<Rightarrow> error + seller_stat list" where
  "aggregate calcRevenue ss d =
     (let sellerStats = map init_stat ss;
          sellerIndex = build_sellerIndex sellerStats;
          productIndex = (case products d of None \<Rightarrow> Map.empty | Some ps \<Rightarrow> build_productIndex ps)
      in (case purchase_records d of
            None \<Rightarrow> Inr sellerStats
          | Some rs \<Rightarrow>
              forEach_raising (process_record calcRevenue sellerIndex productIndex) rs sellerStats))"

definition sort_sellers :: "seller_stat list \<Rightarrow> seller_stat list" where
  "sort_sellers sellerStats = js_sort (\<lambda>a b. jssub (profit b) (profit a)) sellerStats"

definition top_products_of :: "obj \<Rightarrow> (string \<times> jsval) list" where
  "top_products_of sold =
     take 10 (js_sort (\<lambda>a b. jssub (val_number (snd b)) (val_number (snd a))) (object_entries sold))"

definition make_report :: "jsnum \<Rightarrow> seller_stat \<Rightarrow> report" where
  "make_report bonus seller =
     \<lparr>report_seller_id = seller_id seller, report_name = name seller,
      report_revenue = toFixed2 (revenue seller), report_profit = toFixed2 (profit seller),
      report_sales_count = sales_count seller,
      report_top_products = top_products_of (products_sold seller),
      report_bonus = toFixed2 bonus\<rparr>"

text \<open>The bonus loop over \<open>sortedSellers\<close> and the final \<open>map\<close>.\<close>

definition build_report ::
  "(int \<Rightarrow> int \<Rightarrow> seller_stat \<Rightarrow> jsnum) \<Rightarrow> seller_stat list \<Rightarrow> report list" where
  "build_report calcBonus sortedSellers =
     map (\<lambda>(index, seller). make_report (calcBonus (int index) (int (length sortedSellers)) seller) seller)
       (enumerate 0 sortedSellers)"

text \<open>
  The second test of the validation, shared by both files: \<open>options\<close> is truthy, its
  \<open>typeof\<close> is \<open>"object"\<close> and both policies are functions.
\<close>

definition check_options ::
  "options_arg \<Rightarrow> ((item \<Rightarrow> product_arg \<Rightarrow> jsnum) \<times> (int \<Rightarrow> int \<Rightarrow> seller_stat \<Rightarrow> jsnum)) option" where
  "check_options options =
     (case options of
        Falsy_options \<Rightarrow> None
      | Non_object_options opts \<Rightarrow> None
      | Object_options opts \<Rightarrow>
          (case calculateBonus opts of
             None \<Rightarrow> None
           | Some calcBonus \<Rightarrow>
               (case calculateRevenue opts of
                  None \<Rightarrow> None
                | Some calcRevenue \<Rightarrow> Some (calcRevenue, calcBonus))))"

definition analyzeSalesData :: "sales_data option \<Rightarrow> options_arg \<Rightarrow> error + report list" where
  "analyzeSalesData data options =
     (case data of
        None \<Rightarrow> Inl InvalidInput
      | Some d \<Rightarrow>
          (case sellers d of
             None \<Rightarrow> Inl InvalidInput
           | Some ss \<Rightarrow>
               if length ss = 0 then Inl InvalidInput
               else
                 (case check_options options of
                    None \<Rightarrow> Inl InvalidOptions
                  | Some (calcRevenue, calcBonus) \<Rightarrow>
                      (case aggregate calcRevenue ss d of
                         Inl e \<Rightarrow> Inl e
                       | Inr sellerStats \<Rightarrow>
                           Inr (build_report calcBonus (sort_sellers sellerStats))))))"

section \<open>The aggregator of \<open>src/unnamed/part_000\<close>\<close>

text \<open>
  This variant validates \<open>products\<close> and \<open>purchase_records\<close> too and reads
  \<open>total_amount\<close>, \<open>items\<close> and \<open>quantity\<close> without a default: an absent number
  becomes \<open>NaN\<close> in the arithmetic, and \<open>record.items.forEach\<close> on an absent
  \<open>items\<close> raises a \<open>TypeError\<close>, which ends the call.
\<close>

definition process_item_part000 ::
  "(item \<Rightarrow> product_arg \<Rightarrow> jsnum) \<Rightarrow> (string \<rightharpoonup> product) \<Rightarrow> seller_stat \<Rightarrow> item \<Rightarrow> seller_stat" where
  "process_item_part000 calcRevenue productIndex seller it =
     (case product_at productIndex (item_sku it) of
        None \<Rightarrow> seller
      | Some p \<Rightarrow>
          let cost = jsmul (to_number (purchase_price_of p)) (to_number (read_field (quantity it)));
              revenue' = calcRevenue it p;
              itemProfit = jssub revenue' cost;
              seller1 = seller\<lparr>profit := jsadd (profit seller) itemProfit\<rparr>;
              sold1 = (if \<not> val_truthy (obj_get (products_sold seller1) (item_sku it))
                       then obj_assign (products_sold seller1) (item_sku it) (Number (Num 0))
                       else products_sold seller1);
              sold2 = obj_assign sold1 (item_sku it)
                        (val_plus (obj_get sold1 (item_sku it)) (to_number (read_field (quantity it))))
          in seller1\<lparr>products_sold := sold2\<rparr>)"

definition process_record_part000 ::
  "(item \<Rightarrow> product_arg \<Rightarrow> jsnum) \<Rightarrow> (string \<rightharpoonup> nat) \<Rightarrow> (string \<rightharpoonup> product)
     \<Rightarrow> seller_stat list \<Rightarrow> purchase_record \<Rightarrow> error + seller_stat list" where
  "process_record_part000 calcRevenue sellerIndex productIndex sellerStats r =
     (case lookup_prop sellerIndex (record_seller_id r) of
        Missing \<Rightarrow> Inr sellerStats
      | Own i \<Rightarrow>
          let seller = sellerStats ! i;
              seller1 = seller\<lparr>sales_count := sales_count seller + 1\<rparr>;
              seller2 = seller1\<lparr>revenue := jsadd (revenue seller1) (to_number (read_field (total_amount r)))\<rparr>
          in (case items r of
                None \<Rightarrow> Inl TypeError
              | Some its \<Rightarrow>
                  Inr (sellerStats[i :=
                         fold (\<lambda>it s. process_item_part000 calcRevenue productIndex s it) its seller2]))
      | Inherited \<Rightarrow>
          (case items r of
             None \<Rightarrow> Inl TypeError
           | Some its \<Rightarrow>
               if list_ex (\<lambda>it. product_at productIndex (item_sku it) \<noteq> None) its
               then Inl TypeError else Inr sellerStats))"

definition aggregate_part000 ::
  "(item \<Rightarrow> product_arg \<Rightarrow> jsnum) \<Rightarrow> seller list \<Rightarrow> product list \<Rightarrow> purchase_record list
     \<Rightarrow> error + seller_stat list" where
  "aggregate_part000 calcRevenue ss ps rs =
     (let sellerStats = map init_stat ss;
          sellerIndex = build_sellerIndex sellerStats;
          productIndex = build_productIndex ps
      in forEach_raising (process_record_part000 calcRevenue sellerIndex productIndex) rs sellerStats)"

definition analyzeSalesData_part000 :: "sales_data option \<Rightarrow> options_arg \<Rightarrow> error + report list" where
  "analyzeSalesData_part000 data options =
     (case data of
        None \<Rightarrow> Inl InvalidInput
      | Some d \<Rightarrow>
          (case (sellers d, products d, purchase_records d) of
             (Some ss, Some ps, Some rs) \<Rightarrow>
               if length ss = 0 \<or> length ps = 0 \<or> length rs = 0 then Inl InvalidInput
               else
                 (case check_options options of
                    None \<Rightarrow> Inl InvalidOptions
                  | Some (calcRevenue, calcBonus) \<Rightarrow>
                      (case aggregate_part000 calcRevenue ss ps rs of
                         Inl e \<Rightarrow> Inl e
                       | Inr sellerStats \<Rightarrow>
                           Inr (build_report calcBonus (sort_sellers sellerStats))))
           | _ \<Rightarrow> Inl InvalidInput))"

section \<open>The two loop bodies as one\<close>

text \<open>
  The loop bodies of the two files differ in two places: what stands for an absent
  \<open>total_amount\<close> or \<open>quantity\<close> (\<open>0\<close> in \<open>src/src/main.js\<close>, nothing in
  \<open>src/unnamed/part_000\<close>), and whether \<open>items\<close> is tested before the loop over it.
  The following definitions state the bodies once, with these two as parameters; they
  are used in the proofs only, where each body is shown to be an instance.
\<close>

definition item_step ::
  "(jsnum option \<Rightarrow> jsnum) \<Rightarrow> (item \<Rightarrow> product_arg \<Rightarrow> jsnum) \<Rightarrow> (string \<rightharpoonup> product)
     \<Rightarrow> seller_stat \<Rightarrow> item \<Rightarrow> seller_stat" where
  "item_step dflt calcRevenue productIndex seller it =
     (case product_at productIndex (item_sku it) of
        None \<Rightarrow> seller
      | Some p \<Rightarrow>
          seller
            \<lparr>profit :=
               jsadd (profit seller)
                 (jssub (calcRevenue it p)
                    (jsmul (to_number (purchase_price_of p)) (dflt (read_field (quantity it))))),
             products_sold :=
               obj_assign
                 (if \<not> val_truthy (obj_get (products_sold seller) (item_sku it))
                  then obj_assign (products_sold seller) (item_sku it) (Number (Num 0))
                  else products_sold seller)
                 (item_sku it)
                 (val_plus
                    (obj_get
                       (if \<not> val_truthy (obj_get (products_sold seller) (item_sku it))
                        then obj_assign (products_sold seller) (item_sku it) (Number (Num 0))
                        else products_sold seller)
                       (item_sku it))
                    (dflt (read_field (quantity it))))\<rparr>)"

definition counted :: "(jsnum option \<Rightarrow> jsnum) \<Rightarrow> seller_stat \<Rightarrow> purchase_record \<Rightarrow> seller_stat" where
  "counted dflt seller r =
     seller\<lparr>sales_count := sales_count seller + 1,
            revenue := jsadd (revenue seller) (dflt (read_field (total_amount r)))\<rparr>"

definition record_step ::
  "(jsnum option \<Rightarrow> jsnum) \<Rightarrow> bool \<Rightarrow> (item \<Rightarrow> product_arg \<Rightarrow> jsnum) \<Rightarrow> (string \<rightharpoonup> nat)
     \<Rightarrow> (string \<rightharpoonup> product) \<Rightarrow> seller_stat list \<Rightarrow> purchase_record \<Rightarrow> error + seller_stat list" where
  "record_step dflt guarded calcRevenue sellerIndex productIndex sellerStats r =
     (case lookup_prop sellerIndex (record_seller_id r) of
        Missing \<Rightarrow> Inr sellerStats
      | Own i \<Rightarrow>
          (case items r of
             None \<Rightarrow>
               if guarded then Inr (sellerStats[i := counted dflt (sellerStats ! i) r])
               else Inl TypeError
           | Some its \<Rightarrow>
               Inr (sellerStats[i :=
                      fold (\<lambda>it s. item_step dflt calcRevenue productIndex s it) its
                        (counted dflt (sellerStats ! i) r)]))
      | Inherited \<Rightarrow>
          (case items r of
             None \<Rightarrow> if guarded then Inr sellerStats else Inl TypeError
           | Some its \<Rightarrow>
               if list_ex (\<lambda>it. product_at productIndex (item_sku it) \<noteq> None) its
               then Inl TypeError else Inr sellerStats))"

section \<open>Notions used in the statements\<close>

text \<open>The purchase records and the products that the aggregator of \<open>src/src/main.js\<close> reads:
  none when the collection is absent or not an array.\<close>

definition records_of :: "sales_data \<Rightarrow> purchase_record list" where
  "records_of d = (case purchase_records d of None \<Rightarrow> [] | Some rs \<Rightarrow> rs)"

definition products_of :: "sales_data \<Rightarrow> product list" where
  "products_of d = (case products d of None \<Rightarrow> [] | Some ps \<Rightarrow> ps)"

text \<open>The \<open>total_amount\<close> of a record, \<open>0\<close> when absent.\<close>

definition amount_of :: "purchase_record \<Rightarrow> rat" where
  "amount_of r = (case total_amount r of None \<Rightarrow> 0 | Some a \<Rightarrow> a)"

text \<open>The sum of a list of numbers of the source language, added up from the left.\<close>

definition jssum :: "jsnum list \<Rightarrow> jsnum" where
  "jssum xs = foldl jsadd (Num 0) xs"

text \<open>
  The sum of \<open>total_amount\<close> over the purchase records whose seller identifier is the
  identifier of an input seller.
\<close>

definition known_seller_total :: "seller list \<Rightarrow> purchase_record list \<Rightarrow> rat" where
  "known_seller_total ss rs =
     sum_list (map amount_of (filter (\<lambda>r. record_seller_id r \<in> set (map id_of ss)) rs))"

text \<open>
  Every \<open>total_amount\<close> is an integer and the absolute values add up to at most
  \<open>2\<^sup>5\<^sup>3\<close>. Every sum that the loop over the records forms is then an integer of that
  range, which a double holds exactly, so that the rational numbers of the model are the
  numbers that the program computes.
\<close>

definition exact_amounts :: "purchase_record list \<Rightarrow> bool" where
  "exact_amounts rs =
     (list_all (\<lambda>r. rat_of_int \<lfloor>amount_of r\<rfloor> = amount_of r) rs
      \<and> sum_list (map (\<lambda>r. \<bar>amount_of r\<bar>) rs) \<le> 2 ^ 53)"

text \<open>
  The purchase records that \<open>sellerIndex\<close> attributes to the seller at position \<open>j\<close> of
  the input, in input order.
\<close>

definition records_for :: "seller list \<Rightarrow> purchase_record list \<Rightarrow> nat \<Rightarrow> purchase_record list" where
  "records_for ss rs j =
     filter (\<lambda>r. build_sellerIndex (map init_stat ss) (record_seller_id r) = Some j) rs"

text \<open>The distinct elements of a list, each at the place of its first occurrence.\<close>

definition first_occurrence_order :: "'a list \<Rightarrow> 'a list" where
  "first_occurrence_order xs = rev (remdups (rev xs))"

text \<open>
  The SKUs of the line items that are processed for the seller at position \<open>j\<close> of the
  input, in input order: the items of the records attributed to that seller for which
  \<open>productIndex[item.sku]\<close> is not \<open>undefined\<close>.
\<close>

definition processed_skus :: "seller list \<Rightarrow> product list \<Rightarrow> purchase_record list \<Rightarrow> nat \<Rightarrow> string list" where
  "processed_skus ss ps rs j =
     concat (map (\<lambda>r. case items r of
                         None \<Rightarrow> []
                       | Some its \<Rightarrow>
                           map item_sku
                             (filter (\<lambda>it. product_at (build_productIndex ps) (item_sku it) \<noteq> None) its))
               (records_for ss rs j))"

text \<open>
  No seller identifier and no product SKU is \<open>__proto__\<close>: the inputs for which the own
  properties of the two indexes are what the model says.
\<close>

definition plain_keys :: "seller list \<Rightarrow> product list \<Rightarrow> bool" where
  "plain_keys ss ps =
     (''__proto__'' \<notin> set (map id_of ss) \<and> ''__proto__'' \<notin> set (map sku ps))"

section \<open>Example inputs\<close>

definition st100 :: seller_stat where
  "st100 = \<lparr>seller_id = ''s1'', name = ''A B'', revenue = Num 500, profit = Num 100,
             sales_count = 3, products_sold = []\<rparr>"

definition sellerA :: seller where
  "sellerA = \<lparr>id_of = ''seller_1'', first_name = ''Alexey'', last_name = ''Petrov''\<rparr>"

definition sellerB :: seller where
  "sellerB = \<lparr>id_of = ''seller_2'', first_name = ''Mikhail'', last_name = ''Nikolaev''\<rparr>"

definition sellerC :: seller where
  "sellerC = \<lparr>id_of = ''seller_3'', first_name = ''Natalya'', last_name = ''Egorova''\<rparr>"

definition default_options :: sales_options where
  "default_options =
     \<lparr>calculateRevenue = Some calculateSimpleRevenue, calculateBonus = Some calculateBonusByProfit\<rparr>"

definition product1 :: product where
  "product1 = \<lparr>sku = ''SKU_001'', purchase_price = Some 10\<rparr>"

definition item_known :: item where
  "item_known = \<lparr>item_sku = ''SKU_001'', quantity = Some 5, discount = Some 0, sale_price = 20\<rparr>"

definition item_unknown :: item where
  "item_unknown = \<lparr>item_sku = ''SKU_404'', quantity = Some 1, discount = None, sale_price = 5\<rparr>"

definition data_no_collections :: sales_data where
  "data_no_collections = \<lparr>sellers = Some [sellerA], products = None, purchase_records = None\<rparr>"

definition data_unknown_refs :: sales_data where
  "data_unknown_refs =
     \<lparr>sellers = Some [sellerA], products = Some [product1],
      purchase_records =
        Some [\<lparr>record_seller_id = ''seller_9'', total_amount = Some 100, items = Some [item_unknown]\<rparr>]\<rparr>"

definition data_inherited_seller :: sales_data where
  "data_inherited_seller =
     \<lparr>sellers = Some [sellerA], products = Some [product1],
      purchase_records =
        Some [\<lparr>record_seller_id = ''constructor'', total_amount = Some 100, items = Some [item_known]\<rparr>]\<rparr>"

definition item_inherited :: item where
  "item_inherited = \<lparr>item_sku = ''constructor'', quantity = Some 1, discount = None, sale_price = 5\<rparr>"

definition data_inherited_sku :: sales_data where
  "data_inherited_sku =
     \<lparr>sellers = Some [sellerA], products = Some [product1],
      purchase_records =
        Some [\<lparr>record_seller_id = ''seller_1'', total_amount = Some 100,
               items = Some [item_known, item_inherited]\<rparr>]\<rparr>"

definition data_known_only :: sales_data where
  "data_known_only =
     \<lparr>sellers = Some [sellerA], products = Some [product1],
      purchase_records =
        Some [\<lparr>record_seller_id = ''seller_1'', total_amount = Some 100, items = Some [item_known]\<rparr>]\<rparr>"

definition data_two_sellers :: sales_data where
  "data_two_sellers =
     \<lparr>sellers = Some [sellerA, sellerB], products = Some [product1],
      purchase_records =
        Some [\<lparr>record_seller_id = ''seller_2'', total_amount = Some 100, items = Some [item_known]\<rparr>,
              \<lparr>record_seller_id = ''seller_9'', total_amount = Some 50, items = Some [item_known]\<rparr>,
              \<lparr>record_seller_id = ''seller_1'', total_amount = Some (61 / 2), items = Some []\<rparr>]\<rparr>"

definition data_missing_quantity :: sales_data where
  "data_missing_quantity =
     \<lparr>sellers = Some [sellerA, sellerB], products = Some [product1],
      purchase_records =
        Some [\<lparr>record_seller_id = ''seller_1'', total_amount = Some 20,
               items = Some [\<lparr>item_sku = ''SKU_001'', quantity = None, discount = None, sale_price = 20\<rparr>]\<rparr>,
              \<lparr>record_seller_id = ''seller_2'', total_amount = Some 100, items = Some [item_known]\<rparr>]\<rparr>"

definition data_tie :: sales_data where
  "data_tie =
     \<lparr>sellers = Some [sellerA, sellerB, sellerC], products = Some [product1],
      purchase_records =
        Some [\<lparr>record_seller_id = ''seller_3'', total_amount = Some 30,
               items = Some [\<lparr>item_sku = ''SKU_001'', quantity = Some 2, discount = None, sale_price = 15\<rparr>]\<rparr>,
              \<lparr>record_seller_id = ''seller_2'', total_amount = Some 100, items = Some [item_known]\<rparr>,
              \<lparr>record_seller_id = ''seller_1'', total_amount = Some 40,
               items = Some [\<lparr>item_sku = ''SKU_001'', quantity = Some 1, discount = None, sale_price = 20\<rparr>]\<rparr>]\<rparr>"

definition stats_tie :: "seller_stat list" where
  "stats_tie =
     [\<lparr>seller_id = ''seller_1'', name = ''Alexey Petrov'', revenue = Num 40, profit = Num 10,
       sales_count = 1, products_sold = [(''SKU_001'', Number (Num 1))]\<rparr>,
      \<lparr>seller_id = ''seller_2'', name = ''Mikhail Nikolaev'', revenue = Num 100, profit = Num 50,
       sales_count = 1, products_sold = [(''SKU_001'', Number (Num 5))]\<rparr>,
      \<lparr>seller_id = ''seller_3'', name = ''Natalya Egorova'', revenue = Num 30, profit = Num 10,
       sales_count = 1, products_sold = [(''SKU_001'', Number (Num 2))]\<rparr>]"

definition report_tie :: "report list" where
  "report_tie =
     [\<lparr>report_seller_id = ''seller_2'', report_name = ''Mikhail Nikolaev'', report_revenue = Num 100,
       report_profit = Num 50, report_sales_count = 1,
       report_top_products = [(''SKU_001'', Number (Num 5))], report_bonus = Num (15 / 2)\<rparr>,
      \<lparr>report_seller_id = ''seller_1'', report_name = ''Alexey Petrov'', report_revenue = Num 40,
       report_profit = Num 10, report_sales_count = 1,
       report_top_products = [(''SKU_001'', Number (Num 1))], report_bonus = Num 1\<rparr>,
      \<lparr>report_seller_id = ''seller_3'', report_name = ''Natalya Egorova'', report_revenue = Num 30,
       report_profit = Num 10, report_sales_count = 1,
       report_top_products = [(''SKU_001'', Number (Num 2))], report_bonus = Num 1\<rparr>]"

definition data_small_amounts :: sales_data where
  "data_small_amounts =
     \<lparr>sellers = Some [sellerA, sellerB], products = Some [product1],
      purchase_records =
        Some [\<lparr>record_seller_id = ''seller_1'', total_amount = Some (4 / 1000), items = Some []\<rparr>,
              \<lparr>record_seller_id = ''seller_2'', total_amount = Some (4 / 1000), items = Some []\<rparr>]\<rparr>"

definition record_unknown_seller :: purchase_record where
  "record_unknown_seller =
     \<lparr>record_seller_id = ''seller_9'', total_amount = Some 50, items = Some [item_known]\<rparr>"

definition records_before :: "purchase_record list" where
  "records_before =
     [\<lparr>record_seller_id = ''seller_2'', total_amount = Some 100, items = Some [item_known]\<rparr>]"

definition records_after :: "purchase_record list" where
  "records_after =
     [\<lparr>record_seller_id = ''seller_1'', total_amount = Some 30, items = Some []\<rparr>,
      \<lparr>record_seller_id = ''seller_2'', total_amount = Some 7, items = None\<rparr>]"

definition data_unknown_record :: sales_data where
  "data_unknown_record =
     \<lparr>sellers = Some [sellerA, sellerB], products = Some [product1],
      purchase_records = Some (records_before @ record_unknown_seller # records_after)\<rparr>"

definition stats_unknown_record :: "seller_stat list" where
  "stats_unknown_record =
     [\<lparr>seller_id = ''seller_1'', name = ''Alexey Petrov'', revenue = Num 30, profit = Num 0,
       sales_count = 1, products_sold = []\<rparr>,
      \<lparr>seller_id = ''seller_2'', name = ''Mikhail Nikolaev'', revenue = Num 107, profit = Num 50,
       sales_count = 2, products_sold = [(''SKU_001'', Number (Num 5))]\<rparr>]"

definition data_numeric_skus :: sales_data where
  "data_numeric_skus =
     \<lparr>sellers = Some [sellerA],
      products = Some [\<lparr>sku = ''1001'', purchase_price = Some 10\<rparr>, \<lparr>sku = ''1002'', purchase_price = Some 10\<rparr>],
      purchase_records =
        Some [\<lparr>record_seller_id = ''seller_1'', total_amount = Some 40,
               items = Some [\<lparr>item_sku = ''1002'', quantity = Some 1, discount = None, sale_price = 20\<rparr>,
                             \<lparr>item_sku = ''1001'', quantity = Some 1, discount = None, sale_price = 20\<rparr>]\<rparr>]\<rparr>"

definition priced :: "string \<Rightarrow> product" where
  "priced k = \<lparr>sku = k, purchase_price = Some 10\<rparr>"

definition sold_item :: "string \<Rightarrow> rat \<Rightarrow> item" where
  "sold_item k q = \<lparr>item_sku = k, quantity = Some q, discount = None, sale_price = 20\<rparr>"

definition data_twelve_skus :: sales_data where
  "data_twelve_skus =
     \<lparr>sellers = Some [sellerA, sellerB],
      products =
        Some (map priced [''SKU_001'', ''SKU_002'', ''SKU_003'', ''SKU_004'', ''SKU_005'', ''SKU_006'',
                          ''SKU_007'', ''SKU_008'', ''SKU_009'', ''SKU_010'', ''SKU_011'', ''SKU_012'']),
      purchase_records =
        Some [\<lparr>record_seller_id = ''seller_2'', total_amount = Some 380,
               items = Some [sold_item ''SKU_003'' 2, sold_item ''SKU_001'' 5, sold_item ''SKU_002'' 2,
                             sold_item ''SKU_004'' 1, sold_item ''SKU_005'' 7, sold_item ''SKU_006'' 2]\<rparr>,
              \<lparr>record_seller_id = ''seller_1'', total_amount = Some 20,
               items = Some [sold_item ''SKU_002'' 1]\<rparr>,
              \<lparr>record_seller_id = ''seller_2'', total_amount = Some 340,
               items = Some [sold_item ''SKU_007'' 3, sold_item ''SKU_008'' 1, sold_item ''SKU_009'' 4,
                             sold_item ''SKU_010'' 6, sold_item ''SKU_011'' 1, sold_item ''SKU_012'' 1,
                             sold_item ''SKU_001'' 1]\<rparr>]\<rparr>"

definition sold_twelve_skus :: obj where
  "sold_twelve_skus =
     [(''SKU_003'', Number (Num 2)), (''SKU_001'', Number (Num 6)), (''SKU_002'', Number (Num 2)),
      (''SKU_004'', Number (Num 1)), (''SKU_005'', Number (Num 7)), (''SKU_006'', Number (Num 2)),
      (''SKU_007'', Number (Num 3)), (''SKU_008'', Number (Num 1)), (''SKU_009'', Number (Num 4)),
      (''SKU_010'', Number (Num 6)), (''SKU_011'', Number (Num 1)), (''SKU_012'', Number (Num 1))]"

definition stats_twelve_skus :: "seller_stat list" where
  "stats_twelve_skus =
     [\<lparr>seller_id = ''seller_1'', name = ''Alexey Petrov'', revenue = Num 20, profit = Num 10,
       sales_count = 1, products_sold = [(''SKU_002'', Number (Num 1))]\<rparr>,
      \<lparr>seller_id = ''seller_2'', name = ''Mikhail Nikolaev'', revenue = Num 720, profit = Num 360,
       sales_count = 2, products_sold = sold_twelve_skus\<rparr>]"

definition top_twelve_skus :: "(string \<times> jsval) list" where
  "top_twelve_skus =
     [(''SKU_005'', Number (Num 7)), (''SKU_001'', Number (Num 6)), (''SKU_010'', Number (Num 6)),
      (''SKU_009'', Number (Num 4)), (''SKU_007'', Number (Num 3)), (''SKU_003'', Number (Num 2)),
      (''SKU_002'', Number (Num 2)), (''SKU_006'', Number (Num 2)), (''SKU_004'', Number (Num 1)),
      (''SKU_008'', Number (Num 1))]"

definition report_twelve_skus :: "report list" where
  "report_twelve_skus =
     [\<lparr>report_seller_id = ''seller_2'', report_name = ''Mikhail Nikolaev'', report_revenue = Num 720,
       report_profit = Num 360, report_sales_count = 2, report_top_products = top_twelve_skus,
       report_bonus = Num 54\<rparr>,
      \<lparr>report_seller_id = ''seller_1'', report_name = ''Alexey Petrov'', report_revenue = Num 20,
       report_profit = Num 10, report_sales_count = 1,
       report_top_products = [(''SKU_002'', Number (Num 1))], report_bonus = Num 1\<rparr>]"

section \<open>Properties of the default policies\<close>

text \<open>
  C4. \<open>calculateSimpleRevenue\<close> returns \<open>sale_price \<times> quantity \<times> (1 - discount / 100)\<close>
  when the discount of the item is present and greater than \<open>0\<close>, and
  \<open>sale_price \<times> quantity\<close> otherwise. The products are those of the source language
  (an absent quantity makes them \<open>NaN\<close>); for an item that carries a quantity the result
  is the rational number of the formula. Both files compute the same function.
\<close>

theorem calculateSimpleRevenue_formula:
  "calculateSimpleRevenue it p =
     (case discount it of
        Some d \<Rightarrow>
          if 0 < d
          then jsmul (jsmul (Num (sale_price it)) (to_number (read_field (quantity it))))
                 (Num (1 - d / 100))
          else jsmul (Num (sale_price it)) (to_number (read_field (quantity it)))
      | None \<Rightarrow> jsmul (Num (sale_price it)) (to_number (read_field (quantity it))))
   \<and> calculateSimpleRevenue_part000 it p = calculateSimpleRevenue it p
   \<and> (\<forall>q. quantity it = Some q \<longrightarrow>
        calculateSimpleRevenue it p =
          Num (case discount it of
                 Some d \<Rightarrow> if 0 < d then sale_price it * q * (1 - d / 100) else sale_price it * q
               | None \<Rightarrow> sale_price it * q))"
  by (auto simp: calculateSimpleRevenue_def calculateSimpleRevenue_part000_def read_field_def Let_def
      split: option.splits)

theorem calculateSimpleRevenue_formula_witness:
  "calculateSimpleRevenue
     \<lparr>item_sku = ''SKU_001'', quantity = Some 5, discount = Some 10, sale_price = 20\<rparr>
     (Product \<lparr>sku = ''SKU_001'', purchase_price = Some 10\<rparr>) = Num 90
   \<and> calculateSimpleRevenue
     \<lparr>item_sku = ''SKU_001'', quantity = Some 5, discount = None, sale_price = 20\<rparr>
     (Product \<lparr>sku = ''SKU_001'', purchase_price = Some 10\<rparr>) = Num 100"
  using calculateSimpleRevenue_formula
    [of "\<lparr>item_sku = ''SKU_001'', quantity = Some 5, discount = Some 10, sale_price = 20\<rparr>"
        "Product \<lparr>sku = ''SKU_001'', purchase_price = Some 10\<rparr>"]
    calculateSimpleRevenue_formula
    [of "\<lparr>item_sku = ''SKU_001'', quantity = Some 5, discount = None, sale_price = 20\<rparr>"
        "Product \<lparr>sku = ''SKU_001'', purchase_price = Some 10\<rparr>"]
  by (simp add: read_field_def)

text \<open>
  C2. \<open>calculateBonusByProfit\<close> tests its conditions in the order \<open>index = 0\<close>
  (\<open>profit \<times> 0.15\<close>), \<open>index < 3\<close> (\<open>profit \<times> 0.10\<close>), \<open>index = total - 1\<close> (\<open>0\<close>),
  otherwise \<open>profit \<times> 0.05\<close>: each rule applies exactly when the ones before it do not.
  With a single seller (\<open>total = 1\<close>, \<open>index = 0\<close>) the first rule gives \<open>profit \<times> 0.15\<close>.
\<close>

theorem calculateBonusByProfit_rule_order:
  "(index = 0 \<longrightarrow> calculateBonusByProfit index total' seller = jsmul (profit seller) (Num (15 / 100)))
   \<and> (index \<noteq> 0 \<and> index < 3 \<longrightarrow>
        calculateBonusByProfit index total' seller = jsmul (profit seller) (Num (10 / 100)))
   \<and> (\<not> index < 3 \<and> index = total' - 1 \<longrightarrow> calculateBonusByProfit index total' seller = Num 0)
   \<and> (\<not> index < 3 \<and> index \<noteq> total' - 1 \<longrightarrow>
        calculateBonusByProfit index total' seller = jsmul (profit seller) (Num (5 / 100)))
   \<and> calculateBonusByProfit 0 1 seller = jsmul (profit seller) (Num (15 / 100))"
  by (simp add: calculateBonusByProfit_def)

theorem calculateBonusByProfit_rule_order_witness:
  "calculateBonusByProfit 0 1 st100 = Num 15
   \<and> calculateBonusByProfit 0 5 st100 = Num 15
   \<and> calculateBonusByProfit 2 5 st100 = Num 10
   \<and> calculateBonusByProfit 4 5 st100 = Num 0
   \<and> calculateBonusByProfit 3 5 st100 = Num 5"
  using calculateBonusByProfit_rule_order [of 0 5 st100]
    calculateBonusByProfit_rule_order [of 2 5 st100]
    calculateBonusByProfit_rule_order [of 4 5 st100]
    calculateBonusByProfit_rule_order [of 3 5 st100]
  by (simp add: st100_def)




section \<open>The loop bodies\<close>

lemma process_item_eq:
  "process_item calcRevenue productIndex s it = item_step or_zero calcRevenue productIndex s it"
  by (cases "product_at productIndex (item_sku it)")
    (simp_all add: process_item_def item_step_def Let_def)

lemma process_item_part000_eq:
  "process_item_part000 calcRevenue productIndex s it = item_step to_number calcRevenue productIndex s it"
  by (cases "product_at productIndex (item_sku it)")
    (simp_all add: process_item_part000_def item_step_def Let_def)

lemma process_record_eq:
  "process_record calcRevenue sellerIndex productIndex st r =
     record_step or_zero True calcRevenue sellerIndex productIndex st r"
  by (cases "lookup_prop sellerIndex (record_seller_id r)"; cases "items r")
    (simp_all add: process_record_def record_step_def counted_def Let_def process_item_eq)

lemma process_record_part000_eq:
  "process_record_part000 calcRevenue sellerIndex productIndex st r =
     record_step to_number False calcRevenue sellerIndex productIndex st r"
  by (cases "lookup_prop sellerIndex (record_seller_id r)"; cases "items r")
    (simp_all add: process_record_part000_def record_step_def counted_def Let_def process_item_part000_eq)

lemma aggregate_eq:
  "aggregate calcRevenue ss d =
     forEach_raising
       (record_step or_zero True calcRevenue (build_sellerIndex (map init_stat ss))
          (build_productIndex (products_of d)))
       (records_of d) (map init_stat ss)"
proof -
  have f: "process_record calcRevenue sellerIndex productIndex =
      record_step or_zero True calcRevenue sellerIndex productIndex" for sellerIndex productIndex
    by (intro ext) (rule process_record_eq)
  have p: "(case products d of None \<Rightarrow> Map.empty | Some ps \<Rightarrow> build_productIndex ps) =
      build_productIndex (products_of d)"
    by (cases "products d") (simp_all add: products_of_def build_productIndex_def)
  show ?thesis
    by (cases "purchase_records d") (simp_all add: aggregate_def Let_def f p records_of_def)
qed

lemma aggregate_part000_eq:
  "aggregate_part000 calcRevenue ss ps rs =
     forEach_raising
       (record_step to_number False calcRevenue (build_sellerIndex (map init_stat ss))
          (build_productIndex ps))
       rs (map init_stat ss)"
proof -
  have f: "process_record_part000 calcRevenue sellerIndex productIndex =
      record_step to_number False calcRevenue sellerIndex productIndex" for sellerIndex productIndex
    by (intro ext) (rule process_record_part000_eq)
  show ?thesis by (simp add: aggregate_part000_def Let_def f)
qed

section \<open>The two indexes\<close>

lemma fold_productIndex_None:
  "fold (\<lambda>p idx. idx(sku p \<mapsto> p)) ps m k = None \<longleftrightarrow> m k = None \<and> k \<notin> sku ` set ps"
  by (induction ps arbitrary: m) auto

lemma build_productIndex_None: "build_productIndex ps k = None \<longleftrightarrow> k \<notin> sku ` set ps"
  by (simp add: build_productIndex_def fold_productIndex_None)

lemma fold_sellerIndex_Some:
  "fold (\<lambda>i idx. idx(f i \<mapsto> i)) js m k = Some i \<Longrightarrow> (i \<in> set js \<and> f i = k) \<or> m k = Some i"
  by (induction js arbitrary: m) (fastforce split: if_splits)+

lemma fold_sellerIndex_None:
  "fold (\<lambda>i idx. idx(f i \<mapsto> i)) js m k = None \<longleftrightarrow> m k = None \<and> k \<notin> f ` set js"
  by (induction js arbitrary: m) auto

lemma build_sellerIndex_Some:
  assumes "build_sellerIndex sellerStats k = Some i"
  shows "i < length sellerStats \<and> seller_id (sellerStats ! i) = k"
  using fold_sellerIndex_Some [OF assms [unfolded build_sellerIndex_def]] by auto

lemma build_sellerIndex_None:
  "build_sellerIndex sellerStats k = None \<longleftrightarrow> k \<notin> seller_id ` set sellerStats"
proof -
  have "(\<lambda>i. seller_id (sellerStats ! i)) ` set [0..<length sellerStats] = seller_id ` set sellerStats"
    by (force simp: in_set_conv_nth image_iff)
  then show ?thesis
    by (simp add: build_sellerIndex_def fold_sellerIndex_None del: set_upt)
qed

lemma seller_id_init_stats: "map seller_id (map init_stat ss) = map id_of ss"
  by (simp add: init_stat_def)

lemma sellerIndex_known:
  "(build_sellerIndex (map init_stat ss) k \<noteq> None) = (k \<in> set (map id_of ss))"
  using build_sellerIndex_None [of "map init_stat ss" k] seller_id_init_stats [of ss]
  by (metis list.set_map)

lemma sellerIndex_bound:
  "\<forall>k i. build_sellerIndex (map init_stat ss) k = Some i \<longrightarrow> i < length (map init_stat ss)"
  using build_sellerIndex_Some by blast

lemma lookup_prop_Own: "lookup_prop own k = Own v \<longleftrightarrow> own k = Some v"
  by (auto simp: lookup_prop_def split: option.splits)

lemma lookup_prop_Missing: "lookup_prop own k = Missing \<longleftrightarrow> own k = None \<and> k \<notin> set inherited_names"
  by (auto simp: lookup_prop_def split: option.splits)

lemma product_at_None:
  "product_at productIndex k = None \<longleftrightarrow> productIndex k = None \<and> k \<notin> set inherited_names"
  by (auto simp: product_at_def lookup_prop_def split: option.splits)

section \<open>One item\<close>

lemma item_step_unknown:
  "product_at productIndex (item_sku it) = None \<Longrightarrow> item_step dflt calcRevenue productIndex s it = s"
  by (simp add: item_step_def)

lemma item_step_keeps:
  "seller_id (item_step dflt calcRevenue productIndex s it) = seller_id s"
  "name (item_step dflt calcRevenue productIndex s it) = name s"
  "revenue (item_step dflt calcRevenue productIndex s it) = revenue s"
  "sales_count (item_step dflt calcRevenue productIndex s it) = sales_count s"
  by (cases "product_at productIndex (item_sku it)"; simp add: item_step_def)+

lemma fold_item_step_keeps:
  "seller_id (fold (\<lambda>it s. item_step dflt calcRevenue productIndex s it) its s) = seller_id s"
  "name (fold (\<lambda>it s. item_step dflt calcRevenue productIndex s it) its s) = name s"
  "revenue (fold (\<lambda>it s. item_step dflt calcRevenue productIndex s it) its s) = revenue s"
  "sales_count (fold (\<lambda>it s. item_step dflt calcRevenue productIndex s it) its s) = sales_count s"
  by (induction its arbitrary: s) (simp_all add: item_step_keeps)

lemma map_fst_obj_set:
  "map fst (obj_set ob k v) = (if k \<in> set (map fst ob) then map fst ob else map fst ob @ [k])"
  by (induction ob k v rule: obj_set.induct) (auto simp: image_iff)

lemma map_fst_obj_assign:
  "map fst (obj_assign ob k v) =
     (if k = ''__proto__'' \<or> k \<in> set (map fst ob) then map fst ob else map fst ob @ [k])"
  by (simp add: obj_assign_def map_fst_obj_set)

lemma key_in_obj_set: "k \<in> fst ` set (obj_set ob k v)"
  by (induction ob k v rule: obj_set.induct) auto

lemma key_in_obj_assign: "k \<noteq> ''__proto__'' \<Longrightarrow> k \<in> fst ` set (obj_assign ob k v)"
  by (simp add: obj_assign_def key_in_obj_set)

lemma keys_item_step:
  "map fst (products_sold (item_step dflt calcRevenue productIndex s it)) =
     (if product_at productIndex (item_sku it) = None \<or> item_sku it = ''__proto__''
         \<or> item_sku it \<in> set (map fst (products_sold s))
      then map fst (products_sold s) else map fst (products_sold s) @ [item_sku it])"
  by (cases "product_at productIndex (item_sku it)")
    (auto simp: item_step_def map_fst_obj_assign key_in_obj_assign)

section \<open>One record and the loop over the records\<close>

lemma all_list_update: "\<forall>s\<in>set xs. P s \<Longrightarrow> P y \<Longrightarrow> \<forall>s\<in>set (xs[i := y]). P s"
  using set_update_subset_insert [of xs i y] by auto

lemma record_step_cases:
  assumes "record_step dflt guarded calcRevenue sellerIndex productIndex st r = Inr st'"
  obtains (unchanged) "st' = st" and "\<forall>i. lookup_prop sellerIndex (record_seller_id r) \<noteq> Own i"
  | (own) i where "lookup_prop sellerIndex (record_seller_id r) = Own i"
      and "st' = st[i := fold (\<lambda>it s. item_step dflt calcRevenue productIndex s it)
                          (case items r of None \<Rightarrow> [] | Some its \<Rightarrow> its) (counted dflt (st ! i) r)]"
  using assms
  by (cases "lookup_prop sellerIndex (record_seller_id r)"; cases "items r")
    (auto simp: record_step_def split: if_splits)

lemma record_step_Missing:
  "lookup_prop sellerIndex (record_seller_id r) = Missing \<Longrightarrow>
   record_step dflt guarded calcRevenue sellerIndex productIndex st r = Inr st"
  by (simp add: record_step_def)

lemma record_step_length:
  assumes "record_step dflt guarded calcRevenue sellerIndex productIndex st r = Inr st'"
  shows "length st' = length st"
  using assms by (rule record_step_cases) simp_all

lemma forEach_raising_append:
  "forEach_raising f (xs @ ys) st =
     (case forEach_raising f xs st of Inl e \<Rightarrow> Inl e | Inr st' \<Rightarrow> forEach_raising f ys st')"
  by (induction xs arbitrary: st) (simp_all split: sum.splits)

text \<open>An invariant of the steps that succeed holds for the result of the loop.\<close>

lemma forEach_raising_invariant:
  assumes "forEach_raising f xs st = Inr st'"
    and "I st"
    and "\<And>x s s'. x \<in> set xs \<Longrightarrow> I s \<Longrightarrow> f s x = Inr s' \<Longrightarrow> I s'"
  shows "I st'"
  using assms
proof (induction xs arbitrary: st)
  case Nil
  then show ?case by simp
next
  case (Cons x xs)
  from Cons.prems(1) obtain s1 where s1: "f st x = Inr s1" and rest: "forEach_raising f xs s1 = Inr st'"
    by (auto split: sum.splits)
  have "I s1" using Cons.prems(3) [of x st s1] Cons.prems(2) s1 by simp
  moreover have "\<And>y s s'. y \<in> set xs \<Longrightarrow> I s \<Longrightarrow> f s y = Inr s' \<Longrightarrow> I s'"
    using Cons.prems(3) by (meson list.set_intros(2))
  ultimately show ?case using Cons.IH [OF rest] by blast
qed

lemma record_step_seller_ids:
  assumes "record_step dflt guarded calcRevenue sellerIndex productIndex st r = Inr st'"
    and "\<forall>k i. sellerIndex k = Some i \<longrightarrow> i < length st"
  shows "map seller_id st' = map seller_id st"
  using assms(1)
proof (cases rule: record_step_cases)
  case unchanged
  then show ?thesis by simp
next
  case (own i)
  then have "i < length st" using assms(2) by (simp add: lookup_prop_Own)
  then show ?thesis using own(2)
    by (simp add: map_update fold_item_step_keeps counted_def list_update_same_conv)
qed

lemma aggregate_steps_seller_ids:
  assumes "forEach_raising (record_step dflt guarded calcRevenue sellerIndex productIndex) rs st = Inr st'"
    and "\<forall>k i. sellerIndex k = Some i \<longrightarrow> i < length st"
  shows "map seller_id st' = map seller_id st"
  using assms(1)
proof (rule forEach_raising_invariant [where I = "\<lambda>s. map seller_id s = map seller_id st"])
  show "map seller_id st = map seller_id st" by simp
next
  fix r s s'
  assume s: "map seller_id s = map seller_id st"
    and step: "record_step dflt guarded calcRevenue sellerIndex productIndex s r = Inr s'"
  have "length s = length st" using s by (metis length_map)
  then have "\<forall>k i. sellerIndex k = Some i \<longrightarrow> i < length s" using assms(2) by simp
  from record_step_seller_ids [OF step this] s show "map seller_id s' = map seller_id st" by simp
qed

lemma aggregate_seller_ids:
  assumes "aggregate calcRevenue ss d = Inr stats"
  shows "map seller_id stats = map id_of ss" and "length stats = length ss"
proof -
  show "map seller_id stats = map id_of ss"
    using aggregate_steps_seller_ids [OF assms [unfolded aggregate_eq] sellerIndex_bound]
    by (simp only: seller_id_init_stats)
  then show "length stats = length ss" by (metis length_map)
qed

lemma aggregate_part000_seller_ids:
  assumes "aggregate_part000 calcRevenue ss ps rs = Inr stats"
  shows "map seller_id stats = map id_of ss" and "length stats = length ss"
proof -
  show "map seller_id stats = map id_of ss"
    using aggregate_steps_seller_ids [OF assms [unfolded aggregate_part000_eq] sellerIndex_bound]
    by (simp only: seller_id_init_stats)
  then show "length stats = length ss" by (metis length_map)
qed

section \<open>Sorting and the report\<close>

lemma mset_insert_cmp: "mset (insert_cmp cmp x ys) = add_mset x (mset ys)"
  by (induction ys) simp_all

lemma mset_js_sort: "mset (js_sort cmp xs) = mset xs"
  by (induction xs) (simp_all add: js_sort_def mset_insert_cmp)

lemma set_js_sort: "set (js_sort cmp xs) = set xs"
  by (metis mset_js_sort set_mset_mset)

lemma sum_list_js_sort:
  fixes f :: "'a \<Rightarrow> rat"
  shows "sum_list (map f (js_sort cmp xs)) = sum_list (map f xs)"
  by (metis mset_js_sort mset_map sum_mset_sum_list)

lemma insert_cmp_insort_key:
  assumes "is_number (key x)" and "\<forall>y\<in>set ys. is_number (key y)"
  shows "insert_cmp (\<lambda>a b. jssub (key b) (key a)) x ys = insort_key (\<lambda>a. - the_rat (key a)) x ys"
  using assms(2)
proof (induction ys)
  case Nil
  then show ?case by simp
next
  case (Cons y ys)
  from assms(1) obtain p where p: "key x = Num p" by (cases "key x") auto
  from Cons.prems obtain q where q: "key y = Num q" by (cases "key y") auto
  from Cons show ?case by (auto simp: p q)
qed

lemma js_sort_sort_key:
  assumes "\<forall>x\<in>set xs. is_number (key x)"
  shows "js_sort (\<lambda>a b. jssub (key b) (key a)) xs = sort_key (\<lambda>a. - the_rat (key a)) xs"
  using assms
proof (induction xs)
  case Nil
  then show ?case by (simp add: js_sort_def)
next
  case (Cons x xs)
  then have ih: "js_sort (\<lambda>a b. jssub (key b) (key a)) xs = sort_key (\<lambda>a. - the_rat (key a)) xs"
    by simp
  have "\<forall>y\<in>set (sort_key (\<lambda>a. - the_rat (key a)) xs). is_number (key y)"
    using Cons.prems by simp
  then have "insert_cmp (\<lambda>a b. jssub (key b) (key a)) x (sort_key (\<lambda>a. - the_rat (key a)) xs) =
      insort_key (\<lambda>a. - the_rat (key a)) x (sort_key (\<lambda>a. - the_rat (key a)) xs)"
    using Cons.prems by (intro insert_cmp_insort_key) simp_all
  then show ?case using ih by (simp add: js_sort_def)
qed

lemma js_sort_descending:
  assumes "\<forall>x\<in>set xs. is_number (key x)"
  shows "sorted_wrt (\<lambda>a b. jsge (key a) (key b)) (js_sort (\<lambda>a b. jssub (key b) (key a)) xs)"
proof -
  let ?f = "\<lambda>a. - the_rat (key a)"
  have s: "sorted (map ?f (sort_key ?f xs))" by (rule sorted_sort_key)
  have n: "\<forall>x\<in>set (sort_key ?f xs). is_number (key x)" using assms by simp
  have "sorted_wrt (\<lambda>a b. ?f a \<le> ?f b) (sort_key ?f xs)"
    using s by (simp add: sorted_map)
  then have "sorted_wrt (\<lambda>a b. jsge (key a) (key b)) (sort_key ?f xs)"
  proof (rule sorted_wrt_mono_rel [rotated])
    fix a b
    assume a: "a \<in> set (sort_key ?f xs)" and b: "b \<in> set (sort_key ?f xs)" and le: "?f a \<le> ?f b"
    from a n obtain p where p: "key a = Num p" by (cases "key a") auto
    from b n obtain q where q: "key b = Num q" by (cases "key b") auto
    from le show "jsge (key a) (key b)" by (simp add: p q)
  qed
  then show ?thesis by (simp add: js_sort_sort_key [OF assms])
qed

lemma js_sort_stable:
  assumes "\<forall>x\<in>set xs. is_number (key x)"
  shows "filter (\<lambda>a. key a = k) (js_sort (\<lambda>a b. jssub (key b) (key a)) xs) = filter (\<lambda>a. key a = k) xs"
proof (cases k)
  case NaN
  have "filter (\<lambda>a. key a = NaN) ys = []" if "\<forall>x\<in>set ys. is_number (key x)" for ys
    using that by (induction ys) auto
  then show ?thesis using assms NaN by (simp add: set_js_sort)
next
  case (Num q)
  let ?f = "\<lambda>a. - the_rat (key a)"
  have eq: "filter (\<lambda>a. key a = Num q) ys = filter (\<lambda>a. ?f a = - q) ys"
    if "\<forall>x\<in>set ys. is_number (key x)" for ys
    using that
  proof (induction ys)
    case Nil
    then show ?case by simp
  next
    case (Cons y ys)
    then obtain p where "key y = Num p" by (cases "key y") auto
    with Cons show ?case by simp
  qed
  have "filter (\<lambda>a. key a = Num q) (sort_key ?f xs) = filter (\<lambda>a. ?f a = - q) (sort_key ?f xs)"
    using assms by (intro eq) simp
  also have "\<dots> = filter (\<lambda>a. ?f a = - q) xs" by (rule sort_key_stable)
  also have "\<dots> = filter (\<lambda>a. key a = Num q) xs" using eq [OF assms] by simp
  finally show ?thesis using Num by (simp add: js_sort_sort_key [OF assms])
qed

lemma map_enumerate_snd:
  "map (\<lambda>(i, s). f s) (enumerate n xs) = map f xs"
proof -
  have "map (\<lambda>(i, s). f s) (enumerate n xs) = map f (map snd (enumerate n xs))"
    by (simp only: map_map comp_def split_def)
  then show ?thesis by simp
qed

lemma map_report_revenue:
  "map report_revenue (build_report calcBonus sts) = map (\<lambda>s. toFixed2 (revenue s)) sts"
proof -
  have "map report_revenue (build_report calcBonus sts) =
      map (\<lambda>(i, s). toFixed2 (revenue s)) (enumerate 0 sts)"
    by (simp add: build_report_def make_report_def split_def)
  then show ?thesis by (simp only: map_enumerate_snd)
qed

lemma map_report_seller_id:
  "map report_seller_id (build_report calcBonus sts) = map seller_id sts"
proof -
  have "map report_seller_id (build_report calcBonus sts) = map (\<lambda>(i, s). seller_id s) (enumerate 0 sts)"
    by (simp add: build_report_def make_report_def split_def)
  then show ?thesis by (simp only: map_enumerate_snd)
qed

lemma map_report_profit:
  "map report_profit (build_report calcBonus sts) = map (\<lambda>s. toFixed2 (profit s)) sts"
proof -
  have "map report_profit (build_report calcBonus sts) =
      map (\<lambda>(i, s). toFixed2 (profit s)) (enumerate 0 sts)"
    by (simp add: build_report_def make_report_def split_def)
  then show ?thesis by (simp only: map_enumerate_snd)
qed

lemma prefix_filter_take: "prefix (filter P (take n xs)) (filter P xs)"
  by (metis append_take_drop_id filter_append prefixI)

lemma set_object_entries: "set (object_entries ob) = set ob"
  by (auto simp: object_entries_def)

lemma object_entries_no_index:
  assumes "\<forall>k\<in>set (map fst ob). \<not> is_array_index k"
  shows "object_entries ob = ob"
proof -
  have "filter (\<lambda>e. is_array_index (fst e)) ob = []"
    using assms by (auto simp: filter_empty_conv)
  moreover have "filter (\<lambda>e. \<not> is_array_index (fst e)) ob = ob"
    using assms by (auto simp: filter_id_conv)
  ultimately show ?thesis by (simp add: object_entries_def)
qed

lemma first_occurrence_order_snoc:
  "first_occurrence_order (xs @ [k]) =
     (if k \<in> set xs then first_occurrence_order xs else first_occurrence_order xs @ [k])"
  by (simp add: first_occurrence_order_def)

lemma set_first_occurrence_order: "set (first_occurrence_order xs) = set xs"
  by (simp add: first_occurrence_order_def)

lemma foldl_jsadd_Num:
  "\<forall>x\<in>set xs. is_number x \<Longrightarrow> foldl jsadd (Num a) xs = Num (a + sum_list (map the_rat xs))"
proof (induction xs arbitrary: a)
  case Nil
  then show ?case by simp
next
  case (Cons x xs)
  then obtain q where "x = Num q" by (cases x) auto
  with Cons show ?case by (simp add: add.assoc)
qed

lemma jssum_Num: "\<forall>x\<in>set xs. is_number x \<Longrightarrow> jssum xs = Num (sum_list (map the_rat xs))"
  by (simp add: jssum_def foldl_jsadd_Num)

lemma sum_list_map_update:
  fixes f :: "'a \<Rightarrow> rat"
  shows "i < length xs \<Longrightarrow> sum_list (map f (xs[i := y])) = sum_list (map f xs) - f (xs ! i) + f y"
  by (induction xs arbitrary: i) (auto split: nat.splits)

section \<open>Validation\<close>

lemma check_options_Object:
  "calculateBonus opts = Some calcBonus \<Longrightarrow> calculateRevenue opts = Some calcRevenue \<Longrightarrow>
   check_options (Object_options opts) = Some (calcRevenue, calcBonus)"
  by (simp add: check_options_def)

lemma analyzeSalesData_run:
  assumes "sellers d = Some ss" and "ss \<noteq> []"
    and "calculateBonus opts = Some calcBonus" and "calculateRevenue opts = Some calcRevenue"
  shows "analyzeSalesData (Some d) (Object_options opts) =
    (case aggregate calcRevenue ss d of
       Inl e \<Rightarrow> Inl e
     | Inr stats \<Rightarrow> Inr (build_report calcBonus (sort_sellers stats)))"
  using assms by (simp add: analyzeSalesData_def check_options_Object)

lemma analyzeSalesData_part000_run:
  assumes "sellers d = Some ss" and "ss \<noteq> []" and "products d = Some ps" and "ps \<noteq> []"
    and "purchase_records d = Some rs" and "rs \<noteq> []"
    and "calculateBonus opts = Some calcBonus" and "calculateRevenue opts = Some calcRevenue"
  shows "analyzeSalesData_part000 (Some d) (Object_options opts) =
    (case aggregate_part000 calcRevenue ss ps rs of
       Inl e \<Rightarrow> Inl e
     | Inr stats \<Rightarrow> Inr (build_report calcBonus (sort_sellers stats)))"
  using assms by (simp add: analyzeSalesData_part000_def check_options_Object)

lemma validation_errors:
  "(analyzeSalesData data options = Inl InvalidInput \<longleftrightarrow>
      data = None \<or> (\<exists>d. data = Some d \<and> (sellers d = None \<or> sellers d = Some [])))
   \<and> (analyzeSalesData data options = Inl InvalidOptions \<longleftrightarrow>
        (\<exists>d s ss. data = Some d \<and> sellers d = Some (s # ss)) \<and> check_options options = None)"
proof -
  have agg: "aggregate calcRevenue ss d \<noteq> Inl InvalidInput \<and> aggregate calcRevenue ss d \<noteq> Inl InvalidOptions"
    for calcRevenue ss d
  proof -
    have step: "record_step dflt g calcRevenue si pi st r \<noteq> Inl InvalidInput
        \<and> record_step dflt g calcRevenue si pi st r \<noteq> Inl InvalidOptions" for dflt g si pi st r
      by (cases "lookup_prop si (record_seller_id r)"; cases "items r") (simp_all add: record_step_def)
    have loop: "forEach_raising (record_step dflt g calcRevenue si pi) rs st \<noteq> Inl InvalidInput
        \<and> forEach_raising (record_step dflt g calcRevenue si pi) rs st \<noteq> Inl InvalidOptions"
      for dflt g si pi rs st
    proof (induction rs arbitrary: st)
      case Nil
      then show ?case by simp
    next
      case (Cons r rs)
      then show ?case using step [of dflt g si pi st r]
        by (cases "record_step dflt g calcRevenue si pi st r") auto
    qed
    show ?thesis unfolding aggregate_eq using loop by blast
  qed
  show ?thesis
    using agg
    by (auto simp: analyzeSalesData_def neq_Nil_conv split: option.splits list.splits sum.splits prod.splits)
qed

lemma part000_accepts:
  assumes "analyzeSalesData_part000 (Some d) options = Inr report"
  shows "products d = Some (products_of d) \<and> products_of d \<noteq> []
    \<and> purchase_records d = Some (records_of d) \<and> records_of d \<noteq> []"
  using assms
  by (auto simp: analyzeSalesData_part000_def products_of_def records_of_def
      split: option.splits if_splits)

text \<open>
  A report returned by either file is built from the accumulators of its loop over the
  purchase records, which is a loop of the common body.
\<close>

lemma report_of_either_variant:
  assumes "sellers d = Some ss" and "ss \<noteq> []"
    and "calculateBonus opts = Some calcBonus" and "calculateRevenue opts = Some calcRevenue"
    and "analyzeSalesData (Some d) (Object_options opts) = Inr report
           \<and> aggregate calcRevenue ss d = Inr stats
         \<or> analyzeSalesData_part000 (Some d) (Object_options opts) = Inr report
           \<and> aggregate_part000 calcRevenue ss (products_of d) (records_of d) = Inr stats"
  shows "report = build_report calcBonus (sort_sellers stats)"
    and "map seller_id stats = map id_of ss"
    and "\<exists>dflt guarded.
        forEach_raising
          (record_step dflt guarded calcRevenue (build_sellerIndex (map init_stat ss))
             (build_productIndex (products_of d)))
          (records_of d) (map init_stat ss) = Inr stats"
proof -
  from assms(5) consider
      (main) "analyzeSalesData (Some d) (Object_options opts) = Inr report"
        "aggregate calcRevenue ss d = Inr stats"
    | (part) "analyzeSalesData_part000 (Some d) (Object_options opts) = Inr report"
        "aggregate_part000 calcRevenue ss (products_of d) (records_of d) = Inr stats"
    by blast
  then have "report = build_report calcBonus (sort_sellers stats)
      \<and> map seller_id stats = map id_of ss
      \<and> (\<exists>dflt guarded.
           forEach_raising
             (record_step dflt guarded calcRevenue (build_sellerIndex (map init_stat ss))
                (build_productIndex (products_of d)))
             (records_of d) (map init_stat ss) = Inr stats)"
  proof cases
    case main
    have "report = build_report calcBonus (sort_sellers stats)"
      using analyzeSalesData_run [OF assms(1-4)] main by simp
    moreover have "map seller_id stats = map id_of ss"
      using main(2) by (rule aggregate_seller_ids)
    ultimately show ?thesis using main(2) [unfolded aggregate_eq] by blast
  next
    case part
    note acc = part000_accepts [OF part(1)]
    have "analyzeSalesData_part000 (Some d) (Object_options opts) =
        (case aggregate_part000 calcRevenue ss (products_of d) (records_of d) of
           Inl e \<Rightarrow> Inl e
         | Inr stats \<Rightarrow> Inr (build_report calcBonus (sort_sellers stats)))"
      using assms(1,2) acc assms(3,4) by (intro analyzeSalesData_part000_run) simp_all
    then have "report = build_report calcBonus (sort_sellers stats)"
      using part by simp
    moreover have "map seller_id stats = map id_of ss"
      using part(2) by (rule aggregate_part000_seller_ids)
    ultimately show ?thesis using part(2) [unfolded aggregate_part000_eq] by blast
  qed
  then show "report = build_report calcBonus (sort_sellers stats)"
    and "map seller_id stats = map id_of ss"
    and "\<exists>dflt guarded.
      forEach_raising
        (record_step dflt guarded calcRevenue (build_sellerIndex (map init_stat ss))
           (build_productIndex (products_of d)))
        (records_of d) (map init_stat ss) = Inr stats"
    by blast+
qed

text \<open>
  C5. The claim: \<open>analyzeSalesData\<close> raises exactly when a structural precondition fails,
  and unknown seller references never raise. In \<open>src/src/main.js\<close> the input below passes
  validation, its only purchase record names the seller \<open>constructor\<close>, which is no
  seller of the input, and the call raises a \<open>TypeError\<close>: \<open>sellerIndex["constructor"]\<close>
  is the function that every object inherits, so the record is not skipped.
\<close>

theorem inherited_seller_id_raises:
  "analyzeSalesData (Some data_inherited_seller) (Object_options default_options) = Inl TypeError"
  by code_simp

text \<open>
  C6, as stated: every input whose \<open>products\<close> or \<open>purchase_records\<close> is absent, not an
  array or empty is rejected with the input error. \<open>analyzeSalesData\<close> of
  \<open>src/src/main.js\<close> returns a report for one seller with both collections absent.
\<close>

theorem strict_validation_counterexample:
  "analyzeSalesData (Some data_no_collections) (Object_options default_options) =
     Inr [\<lparr>report_seller_id = ''seller_1'', report_name = ''Alexey Petrov'', report_revenue = Num 0,
           report_profit = Num 0, report_sales_count = 0, report_top_products = [],
           report_bonus = Num 0\<rparr>]"
  by code_simp

lemma aggregate_products_absent:
  "aggregate calcRevenue ss (d\<lparr>products := None\<rparr>) = aggregate calcRevenue ss (d\<lparr>products := Some []\<rparr>)"
  by (simp add: aggregate_def build_productIndex_def)

lemma aggregate_records_absent:
  "aggregate calcRevenue ss (d\<lparr>purchase_records := None\<rparr>) =
     aggregate calcRevenue ss (d\<lparr>purchase_records := Some []\<rparr>)"
  by (simp add: aggregate_def)

text \<open>
  C6, amended: the variant of \<open>src/unnamed/part_000\<close> is strict: it raises the input
  error for every input whose \<open>products\<close> or \<open>purchase_records\<close> is absent, not an array
  or empty. The variant of \<open>src/src/main.js\<close> is lenient: with a non-empty \<open>sellers\<close>
  array it never raises the input error, and it treats a collection that is absent or
  not an array as the empty one (the call gives the same result for both).
\<close>

theorem validation_strict_in_part000_only:
  "((\<forall>d. data = Some d \<longrightarrow>
        products d = None \<or> products d = Some [] \<or> purchase_records d = None
        \<or> purchase_records d = Some []) \<longrightarrow>
      analyzeSalesData_part000 data options = Inl InvalidInput)
   \<and> ((\<exists>s ss. sellers d = Some (s # ss)) \<longrightarrow>
        analyzeSalesData (Some d) options' \<noteq> Inl InvalidInput
        \<and> analyzeSalesData (Some (d\<lparr>products := None\<rparr>)) options' =
            analyzeSalesData (Some (d\<lparr>products := Some []\<rparr>)) options'
        \<and> analyzeSalesData (Some (d\<lparr>purchase_records := None\<rparr>)) options' =
            analyzeSalesData (Some (d\<lparr>purchase_records := Some []\<rparr>)) options')"
proof (intro conjI impI)
  assume "\<forall>d. data = Some d \<longrightarrow>
        products d = None \<or> products d = Some [] \<or> purchase_records d = None
        \<or> purchase_records d = Some []"
  then show "analyzeSalesData_part000 data options = Inl InvalidInput"
    by (auto simp: analyzeSalesData_part000_def split: option.splits)
next
  assume v: "\<exists>s ss. sellers d = Some (s # ss)"
  then show "analyzeSalesData (Some d) options' \<noteq> Inl InvalidInput"
    using validation_errors [of "Some d" options'] by auto
  show "analyzeSalesData (Some (d\<lparr>products := None\<rparr>)) options' =
            analyzeSalesData (Some (d\<lparr>products := Some []\<rparr>)) options'"
    by (simp add: analyzeSalesData_def aggregate_products_absent split: option.splits prod.splits)
  show "analyzeSalesData (Some (d\<lparr>purchase_records := None\<rparr>)) options' =
            analyzeSalesData (Some (d\<lparr>purchase_records := Some []\<rparr>)) options'"
    by (simp add: analyzeSalesData_def aggregate_records_absent split: option.splits prod.splits)
qed

theorem validation_strict_in_part000_only_witness:
  "analyzeSalesData_part000 (Some data_no_collections) (Object_options default_options) = Inl InvalidInput
   \<and> analyzeSalesData (Some data_unknown_refs) (Object_options default_options) \<noteq> Inl InvalidInput
   \<and> analyzeSalesData (Some (data_unknown_refs\<lparr>products := None\<rparr>)) (Object_options default_options) =
       analyzeSalesData (Some (data_unknown_refs\<lparr>products := Some []\<rparr>)) (Object_options default_options)"
  using validation_strict_in_part000_only
    [of "Some data_no_collections" "Object_options default_options" data_unknown_refs
        "Object_options default_options"]
  by (simp add: data_no_collections_def data_unknown_refs_def)

text \<open>
  C7. The claim: a line item whose SKU matches no product is skipped and nothing else.
  In both files the second item of the record below has the SKU \<open>constructor\<close>, which is
  the SKU of no product, and it is not skipped: \<open>productIndex["constructor"]\<close> is the
  function that every object inherits, its \<open>purchase_price\<close> is \<open>undefined\<close>, so the cost
  and with it the profit of the seller become \<open>NaN\<close>, and \<open>products_sold\<close> gets an entry
  \<open>constructor\<close> whose value is a string. Without that item the profit is \<open>50\<close>.
\<close>

theorem inherited_sku_not_skipped:
  "analyzeSalesData (Some data_inherited_sku) (Object_options default_options) =
     Inr [\<lparr>report_seller_id = ''seller_1'', report_name = ''Alexey Petrov'', report_revenue = Num 100,
           report_profit = NaN, report_sales_count = 1,
           report_top_products = [(''SKU_001'', Number (Num 5)), (''constructor'', Text)],
           report_bonus = NaN\<rparr>]
   \<and> analyzeSalesData_part000 (Some data_inherited_sku) (Object_options default_options) =
       analyzeSalesData (Some data_inherited_sku) (Object_options default_options)
   \<and> analyzeSalesData (Some data_known_only) (Object_options default_options) =
     Inr [\<lparr>report_seller_id = ''seller_1'', report_name = ''Alexey Petrov'', report_revenue = Num 100,
           report_profit = Num 50, report_sales_count = 1,
           report_top_products = [(''SKU_001'', Number (Num 5))],
           report_bonus = Num (15 / 2)\<rparr>]
   \<and> analyzeSalesData_part000 (Some data_known_only) (Object_options default_options) =
       analyzeSalesData (Some data_known_only) (Object_options default_options)"
  by code_simp

section \<open>The two variants\<close>

lemma or_zero_present: "or_zero (read_field (Some q)) = to_number (read_field (Some q))"
  by (simp add: or_zero_def read_field_def)

lemma item_step_present:
  assumes "quantity it \<noteq> None"
  shows "item_step to_number calcRevenue productIndex s it = item_step or_zero calcRevenue productIndex s it"
proof -
  from assms obtain q where q: "quantity it = Some q" by auto
  show ?thesis
    unfolding item_step_def q or_zero_present ..
qed

lemma fold_item_step_present:
  assumes "\<forall>it\<in>set its. quantity it \<noteq> None"
  shows "fold (\<lambda>it s. item_step to_number calcRevenue productIndex s it) its s =
    fold (\<lambda>it s. item_step or_zero calcRevenue productIndex s it) its s"
  using assms by (induction its arbitrary: s) (simp_all add: item_step_present)

lemma record_step_present:
  assumes "total_amount r \<noteq> None" and "items r = Some its" and "\<forall>it\<in>set its. quantity it \<noteq> None"
  shows "record_step to_number False calcRevenue sellerIndex productIndex st r =
    record_step or_zero True calcRevenue sellerIndex productIndex st r"
proof -
  from assms(1) obtain a where a: "total_amount r = Some a" by auto
  have c: "counted to_number s r = counted or_zero s r" for s
    by (simp add: counted_def a or_zero_present)
  show ?thesis
    by (cases "lookup_prop sellerIndex (record_seller_id r)")
      (simp_all add: record_step_def assms(2) c fold_item_step_present [OF assms(3)])
qed

lemma forEach_raising_cong:
  assumes "\<And>x st. x \<in> set xs \<Longrightarrow> f st x = g st x"
  shows "forEach_raising f xs st = forEach_raising g xs st"
  using assms
proof (induction xs arbitrary: st)
  case Nil
  then show ?case by simp
next
  case (Cons x xs)
  have "f st x = g st x" using Cons.prems by simp
  moreover have "forEach_raising f xs s = forEach_raising g xs s" for s
    using Cons.IH Cons.prems by (meson list.set_intros(2))
  ultimately show ?case by (simp split: sum.splits)
qed

lemma forEach_raising_total:
  assumes "\<And>x st. x \<in> set xs \<Longrightarrow> \<exists>st'. f st x = Inr st'"
  shows "\<exists>st'. forEach_raising f xs st = Inr st'"
  using assms
proof (induction xs arbitrary: st)
  case Nil
  then show ?case by simp
next
  case (Cons x xs)
  from Cons.prems [of x st] obtain s1 where s1: "f st x = Inr s1" by auto
  have "\<exists>st'. forEach_raising f xs s1 = Inr st'"
    using Cons.IH Cons.prems by (meson list.set_intros(2))
  then show ?case using s1 by simp
qed

lemma record_step_returns:
  assumes "record_seller_id r \<in> dom sellerIndex \<or> record_seller_id r \<notin> set inherited_names"
    and "guarded \<or> items r \<noteq> None"
  shows "\<exists>st'. record_step dflt guarded calcRevenue sellerIndex productIndex st r = Inr st'"
proof (cases "lookup_prop sellerIndex (record_seller_id r)")
  case Missing
  then show ?thesis by (simp add: record_step_def)
next
  case (Own i)
  then show ?thesis using assms(2) by (cases "items r") (auto simp: record_step_def)
next
  case Inherited
  then have False using assms(1) by (auto simp: lookup_prop_def split: option.splits if_splits)
  then show ?thesis ..
qed

text \<open>
  C10. On every input that passes the validation of the strict variant (non-empty
  \<open>sellers\<close>, \<open>products\<close> and \<open>purchase_records\<close>, both policies present) and in which
  every purchase record carries a \<open>total_amount\<close> and an \<open>items\<close> array and every item
  carries a \<open>quantity\<close>, \<open>analyzeSalesData\<close> of \<open>src/unnamed/part_000\<close> and of
  \<open>src/src/main.js\<close> give the same result, which is the report built from the accumulators
  of \<open>src/src/main.js\<close> when its loop over the records ends without an error; and both
  return a report when no seller identifier and no product SKU is \<open>__proto__\<close> and no
  purchase record names, in place of a seller, a member that every object inherits.
\<close>

theorem variants_agree_on_common_domain:
  assumes "sellers d = Some ss" and "ss \<noteq> []"
    and "products d = Some ps" and "ps \<noteq> []"
    and "purchase_records d = Some rs" and "rs \<noteq> []"
    and "calculateBonus opts = Some calcBonus" and "calculateRevenue opts = Some calcRevenue"
    and "\<forall>r\<in>set rs. total_amount r \<noteq> None
      \<and> (\<exists>its. items r = Some its \<and> (\<forall>it\<in>set its. quantity it \<noteq> None))"
  shows "analyzeSalesData_part000 (Some d) (Object_options opts) =
           analyzeSalesData (Some d) (Object_options opts)
    \<and> analyzeSalesData (Some d) (Object_options opts) =
        (case aggregate calcRevenue ss d of
           Inl e \<Rightarrow> Inl e
         | Inr stats \<Rightarrow> Inr (build_report calcBonus (sort_sellers stats)))
    \<and> (plain_keys ss ps
         \<and> (\<forall>r\<in>set rs. record_seller_id r \<in> set (map id_of ss)
                \<or> record_seller_id r \<notin> set inherited_names) \<longrightarrow>
         (\<exists>stats. aggregate calcRevenue ss d = Inr stats
            \<and> analyzeSalesData (Some d) (Object_options opts) =
                Inr (build_report calcBonus (sort_sellers stats))))"
proof -
  let ?si = "build_sellerIndex (map init_stat ss)"
  let ?pi = "build_productIndex ps"
  have same: "record_step to_number False calcRevenue ?si ?pi st r =
      record_step or_zero True calcRevenue ?si ?pi st r" if "r \<in> set rs" for st r
    using assms(9) that record_step_present by blast
  have ps: "products_of d = ps" and rs: "records_of d = rs"
    using assms(3,5) by (simp_all add: products_of_def records_of_def)
  have agg: "aggregate_part000 calcRevenue ss ps rs = aggregate calcRevenue ss d"
    unfolding aggregate_part000_eq aggregate_eq ps rs
    by (rule forEach_raising_cong) (rule same)
  have main: "analyzeSalesData (Some d) (Object_options opts) =
      (case aggregate calcRevenue ss d of
         Inl e \<Rightarrow> Inl e
       | Inr stats \<Rightarrow> Inr (build_report calcBonus (sort_sellers stats)))"
    using assms(1,2,7,8) by (rule analyzeSalesData_run)
  have strict: "analyzeSalesData_part000 (Some d) (Object_options opts) =
      (case aggregate_part000 calcRevenue ss ps rs of
         Inl e \<Rightarrow> Inl e
       | Inr stats \<Rightarrow> Inr (build_report calcBonus (sort_sellers stats)))"
    using assms(1-8) by (rule analyzeSalesData_part000_run)
  have returns: "\<exists>stats. aggregate calcRevenue ss d = Inr stats"
    if plain: "\<forall>r\<in>set rs. record_seller_id r \<in> set (map id_of ss) \<or> record_seller_id r \<notin> set inherited_names"
    unfolding aggregate_eq ps rs
  proof (rule forEach_raising_total)
    fix r st
    assume r: "r \<in> set rs"
    have "record_seller_id r \<in> dom ?si \<or> record_seller_id r \<notin> set inherited_names"
      using plain r sellerIndex_known [of ss "record_seller_id r"] by (auto simp: dom_def)
    then show "\<exists>st'. record_step or_zero True calcRevenue ?si ?pi st r = Inr st'"
      by (rule record_step_returns) simp
  qed
  show ?thesis
  proof (intro conjI impI)
    show "analyzeSalesData_part000 (Some d) (Object_options opts) =
        analyzeSalesData (Some d) (Object_options opts)"
      by (simp only: main strict agg)
    show "analyzeSalesData (Some d) (Object_options opts) =
        (case aggregate calcRevenue ss d of
           Inl e \<Rightarrow> Inl e
         | Inr stats \<Rightarrow> Inr (build_report calcBonus (sort_sellers stats)))"
      by (rule main)
    assume "plain_keys ss ps
         \<and> (\<forall>r\<in>set rs. record_seller_id r \<in> set (map id_of ss)
                \<or> record_seller_id r \<notin> set inherited_names)"
    then obtain stats where "aggregate calcRevenue ss d = Inr stats" using returns by blast
    then show "\<exists>stats. aggregate calcRevenue ss d = Inr stats
        \<and> analyzeSalesData (Some d) (Object_options opts) =
            Inr (build_report calcBonus (sort_sellers stats))"
      using main by simp
  qed
qed

lemma aggregate_data_two_sellers:
  "aggregate calculateSimpleRevenue [sellerA, sellerB] data_two_sellers =
     Inr [\<lparr>seller_id = ''seller_1'', name = ''Alexey Petrov'', revenue = Num (61 / 2), profit = Num 0,
           sales_count = 1, products_sold = []\<rparr>,
          \<lparr>seller_id = ''seller_2'', name = ''Mikhail Nikolaev'', revenue = Num 100, profit = Num 50,
           sales_count = 1, products_sold = [(''SKU_001'', Number (Num 5))]\<rparr>]"
  by code_simp

theorem variants_agree_on_common_domain_witness:
  "analyzeSalesData_part000 (Some data_two_sellers) (Object_options default_options) =
     analyzeSalesData (Some data_two_sellers) (Object_options default_options)
   \<and> analyzeSalesData (Some data_two_sellers) (Object_options default_options) =
       Inr (build_report calculateBonusByProfit
         (sort_sellers
            [\<lparr>seller_id = ''seller_1'', name = ''Alexey Petrov'', revenue = Num (61 / 2), profit = Num 0,
              sales_count = 1, products_sold = []\<rparr>,
             \<lparr>seller_id = ''seller_2'', name = ''Mikhail Nikolaev'', revenue = Num 100, profit = Num 50,
              sales_count = 1, products_sold = [(''SKU_001'', Number (Num 5))]\<rparr>]))"
proof -
  let ?rs = "[\<lparr>record_seller_id = ''seller_2'', total_amount = Some 100, items = Some [item_known]\<rparr>,
            \<lparr>record_seller_id = ''seller_9'', total_amount = Some 50, items = Some [item_known]\<rparr>,
            \<lparr>record_seller_id = ''seller_1'', total_amount = Some (61 / 2), items = Some []\<rparr>]"
  have h1: "sellers data_two_sellers = Some [sellerA, sellerB]"
    by (simp add: data_two_sellers_def)
  have h2: "[sellerA, sellerB] \<noteq> []" by simp
  have h3: "products data_two_sellers = Some [product1]"
    by (simp add: data_two_sellers_def)
  have h4: "[product1] \<noteq> []" by simp
  have h5: "purchase_records data_two_sellers = Some ?rs"
    by (simp add: data_two_sellers_def)
  have h6: "?rs \<noteq> []" by simp
  have h7: "calculateBonus default_options = Some calculateBonusByProfit"
    by (simp add: default_options_def)
  have h8: "calculateRevenue default_options = Some calculateSimpleRevenue"
    by (simp add: default_options_def)
  have h9: "\<forall>r\<in>set ?rs. total_amount r \<noteq> None
      \<and> (\<exists>its. items r = Some its \<and> (\<forall>it\<in>set its. quantity it \<noteq> None))"
    by (simp add: item_known_def del: not_None_eq)
  have h10: "\<forall>r\<in>set ?rs. record_seller_id r \<in> set (map id_of [sellerA, sellerB])
      \<or> record_seller_id r \<notin> set inherited_names"
    by (simp add: inherited_names_def sellerA_def sellerB_def)
  have h11: "plain_keys [sellerA, sellerB] [product1]"
    by code_simp
  from variants_agree_on_common_domain [OF h1 h2 h3 h4 h5 h6 h7 h8 h9] h10 h11
  show ?thesis by (simp add: aggregate_data_two_sellers)
qed

section \<open>Ranking by profit\<close>

text \<open>
  C1, as stated: for every input accepted by validation the output is in descending
  order of accumulated profit. Validation does not look at line items. An item without a
  quantity is priced \<open>sale_price \<times> undefined\<close> by \<open>calculateSimpleRevenue\<close>, so the
  profit of its seller becomes \<open>NaN\<close>; the comparator \<open>b.profit - a.profit\<close> then
  yields \<open>NaN\<close> and the sellers stay as they were. The output holds the profits \<open>NaN\<close>
  and \<open>50\<close> next to each other, and \<open>>=\<close> holds in neither order of the two.
\<close>

theorem sorted_by_profit_counterexample:
  "analyzeSalesData (Some data_missing_quantity) (Object_options default_options) =
     Inr [\<lparr>report_seller_id = ''seller_1'', report_name = ''Alexey Petrov'', report_revenue = Num 20,
           report_profit = NaN, report_sales_count = 1,
           report_top_products = [(''SKU_001'', Number (Num 0))], report_bonus = NaN\<rparr>,
          \<lparr>report_seller_id = ''seller_2'', report_name = ''Mikhail Nikolaev'', report_revenue = Num 100,
           report_profit = Num 50, report_sales_count = 1,
           report_top_products = [(''SKU_001'', Number (Num 5))], report_bonus = Num 5\<rparr>]
   \<and> \<not> jsge NaN (Num 50) \<and> \<not> jsge (Num 50) NaN"
  by code_simp

text \<open>
  C1, amended, for both files: for every input accepted by validation on which the call
  returns a report, in which no seller identifier and no product SKU is \<open>__proto__\<close> and
  no accumulated profit is \<open>NaN\<close>, the report lists the sellers in descending order of
  accumulated profit (\<open>profit[i] >= profit[i+1]\<close> for adjacent positions), it is a
  rearrangement of the accumulators, and sellers with equal accumulated profit keep the
  relative order of the input sellers list.
\<close>

theorem sorted_by_profit_stable:
  assumes "sellers d = Some ss" and "ss \<noteq> []"
    and "calculateBonus opts = Some calcBonus" and "calculateRevenue opts = Some calcRevenue"
    and "plain_keys ss (products_of d)"
    and "analyzeSalesData (Some d) (Object_options opts) = Inr report
           \<and> aggregate calcRevenue ss d = Inr stats
         \<or> analyzeSalesData_part000 (Some d) (Object_options opts) = Inr report
           \<and> aggregate_part000 calcRevenue ss (products_of d) (records_of d) = Inr stats"
    and "\<forall>s\<in>set stats. is_number (profit s)"
  shows "report = build_report calcBonus (sort_sellers stats)
    \<and> map report_seller_id report = map seller_id (sort_sellers stats)
    \<and> map report_profit report = map (\<lambda>s. toFixed2 (profit s)) (sort_sellers stats)
    \<and> sorted_wrt (\<lambda>a b. jsge (profit a) (profit b)) (sort_sellers stats)
    \<and> mset (sort_sellers stats) = mset stats
    \<and> filter (\<lambda>s. profit s = p) (sort_sellers stats) = filter (\<lambda>s. profit s = p) stats
    \<and> map seller_id stats = map id_of ss"
proof (intro conjI)
  note either = report_of_either_variant [OF assms(1-4,6)]
  show "report = build_report calcBonus (sort_sellers stats)"
    by (rule either(1))
  show "map report_seller_id report = map seller_id (sort_sellers stats)"
    unfolding either(1) by (rule map_report_seller_id)
  show "map report_profit report = map (\<lambda>s. toFixed2 (profit s)) (sort_sellers stats)"
    unfolding either(1) by (rule map_report_profit)
  show "sorted_wrt (\<lambda>a b. jsge (profit a) (profit b)) (sort_sellers stats)"
    unfolding sort_sellers_def using assms(7) by (rule js_sort_descending)
  show "mset (sort_sellers stats) = mset stats"
    by (simp add: sort_sellers_def mset_js_sort)
  show "filter (\<lambda>s. profit s = p) (sort_sellers stats) = filter (\<lambda>s. profit s = p) stats"
    unfolding sort_sellers_def using assms(7) by (rule js_sort_stable)
  show "map seller_id stats = map id_of ss"
    by (rule either(2))
qed

lemma aggregate_data_tie: "aggregate calculateSimpleRevenue [sellerA, sellerB, sellerC] data_tie = Inr stats_tie"
  by code_simp

lemma aggregate_part000_data_tie:
  "aggregate_part000 calculateSimpleRevenue [sellerA, sellerB, sellerC] (products_of data_tie)
     (records_of data_tie) = Inr stats_tie"
  by code_simp

lemma analyze_data_tie:
  "analyzeSalesData (Some data_tie) (Object_options default_options) = Inr report_tie"
  by code_simp

lemma analyze_part000_data_tie:
  "analyzeSalesData_part000 (Some data_tie) (Object_options default_options) = Inr report_tie"
  by code_simp

theorem sorted_by_profit_stable_witness:
  "list_all (\<lambda>s. is_number (profit s)) stats_tie
   \<and> analyzeSalesData (Some data_tie) (Object_options default_options) = Inr report_tie
   \<and> analyzeSalesData_part000 (Some data_tie) (Object_options default_options) = Inr report_tie
   \<and> report_tie = build_report calculateBonusByProfit (sort_sellers stats_tie)
   \<and> map report_seller_id report_tie = [''seller_2'', ''seller_1'', ''seller_3'']
   \<and> map report_profit report_tie = [Num 50, Num 10, Num 10]
   \<and> sorted_wrt (\<lambda>a b. jsge (profit a) (profit b)) (sort_sellers stats_tie)
   \<and> filter (\<lambda>s. profit s = Num 10) (sort_sellers stats_tie) = filter (\<lambda>s. profit s = Num 10) stats_tie
   \<and> map seller_id (filter (\<lambda>s. profit s = Num 10) stats_tie) = [''seller_1'', ''seller_3'']
   \<and> map seller_id (sort_sellers stats_tie) = [''seller_2'', ''seller_1'', ''seller_3'']"
proof -
  have h1: "sellers data_tie = Some [sellerA, sellerB, sellerC]"
    by (simp add: data_tie_def)
  have h2: "[sellerA, sellerB, sellerC] \<noteq> []" by simp
  have h3: "calculateBonus default_options = Some calculateBonusByProfit"
    by (simp add: default_options_def)
  have h4: "calculateRevenue default_options = Some calculateSimpleRevenue"
    by (simp add: default_options_def)
  have h5: "plain_keys [sellerA, sellerB, sellerC] (products_of data_tie)"
    by code_simp
  have h6: "analyzeSalesData (Some data_tie) (Object_options default_options) = Inr report_tie
        \<and> aggregate calculateSimpleRevenue [sellerA, sellerB, sellerC] data_tie = Inr stats_tie
      \<or> analyzeSalesData_part000 (Some data_tie) (Object_options default_options) = Inr report_tie
        \<and> aggregate_part000 calculateSimpleRevenue [sellerA, sellerB, sellerC] (products_of data_tie)
            (records_of data_tie) = Inr stats_tie"
    using analyze_data_tie aggregate_data_tie by (rule disjI1 [OF conjI])
  have h6': "analyzeSalesData (Some data_tie) (Object_options default_options) = Inr report_tie
        \<and> aggregate calculateSimpleRevenue [sellerA, sellerB, sellerC] data_tie = Inr stats_tie
      \<or> analyzeSalesData_part000 (Some data_tie) (Object_options default_options) = Inr report_tie
        \<and> aggregate_part000 calculateSimpleRevenue [sellerA, sellerB, sellerC] (products_of data_tie)
            (records_of data_tie) = Inr stats_tie"
    using analyze_part000_data_tie aggregate_part000_data_tie by (rule disjI2 [OF conjI])
  have h7: "\<forall>s\<in>set stats_tie. is_number (profit s)"
    by (simp add: stats_tie_def)
  have h7': "list_all (\<lambda>s. is_number (profit s)) stats_tie"
    using h7 by (simp only: list_all_iff)
  have e1: "map seller_id (filter (\<lambda>s. profit s = Num 10) stats_tie) = [''seller_1'', ''seller_3'']"
    by (simp add: stats_tie_def)
  have e2: "map seller_id (sort_sellers stats_tie) = [''seller_2'', ''seller_1'', ''seller_3'']"
    by code_simp
  have e3: "map report_seller_id report_tie = [''seller_2'', ''seller_1'', ''seller_3'']"
    by (simp add: report_tie_def)
  have e4: "map report_profit report_tie = [Num 50, Num 10, Num 10]"
    by (simp add: report_tie_def)
  from sorted_by_profit_stable [OF h1 h2 h3 h4 h5 h6 h7, of "Num 10"]
    sorted_by_profit_stable [OF h1 h2 h3 h4 h5 h6' h7, of "Num 10"]
    h7' e1 e2 e3 e4 analyze_data_tie analyze_part000_data_tie
  show ?thesis by blast
qed

section \<open>Revenue\<close>

text \<open>
  C8, as stated: the revenue fields of the returned report add up to the sum of
  \<open>total_amount\<close> over the records of known sellers. The report holds revenues rounded
  to two decimals: two sellers with one record of \<open>0.004\<close> each are both reported with
  revenue \<open>0\<close>, while the records of known sellers add up to \<open>0.008\<close>.
\<close>

theorem revenue_conservation_counterexample:
  "analyzeSalesData (Some data_small_amounts) (Object_options default_options) =
     Inr [\<lparr>report_seller_id = ''seller_1'', report_name = ''Alexey Petrov'', report_revenue = Num 0,
           report_profit = Num 0, report_sales_count = 1, report_top_products = [],
           report_bonus = Num 0\<rparr>,
          \<lparr>report_seller_id = ''seller_2'', report_name = ''Mikhail Nikolaev'', report_revenue = Num 0,
           report_profit = Num 0, report_sales_count = 1, report_top_products = [],
           report_bonus = Num 0\<rparr>]
   \<and> jssum [Num 0, Num 0] \<noteq> Num (known_seller_total [sellerA, sellerB] (records_of data_small_amounts))"
  by code_simp

lemma or_zero_amount: "or_zero (read_field (total_amount r)) = Num (amount_of r)"
  by (cases "total_amount r") (simp_all add: or_zero_def read_field_def amount_of_def)

lemma revenue_counted: "revenue (counted or_zero s r) = jsadd (revenue s) (Num (amount_of r))"
  by (simp add: counted_def or_zero_amount)

text \<open>The revenue of one seller after the loop: the amounts of its records, added in input order.\<close>

lemma loop_revenue:
  assumes "forEach_raising (record_step or_zero guarded calcRevenue sellerIndex productIndex) rs st = Inr st'"
    and "\<forall>k i. sellerIndex k = Some i \<longrightarrow> i < length st"
    and "j < length st"
  shows "revenue (st' ! j) =
    foldl jsadd (revenue (st ! j))
      (map (\<lambda>r. Num (amount_of r)) (filter (\<lambda>r. sellerIndex (record_seller_id r) = Some j) rs))"
  using assms
proof (induction rs arbitrary: st)
  case Nil
  then show ?case by simp
next
  case (Cons r rs)
  from Cons.prems(1) obtain s1
    where s1: "record_step or_zero guarded calcRevenue sellerIndex productIndex st r = Inr s1"
      and rest: "forEach_raising (record_step or_zero guarded calcRevenue sellerIndex productIndex) rs s1 = Inr st'"
    by (auto split: sum.splits)
  have len: "length s1 = length st" using s1 by (rule record_step_length)
  have step: "revenue (s1 ! j) =
      (if sellerIndex (record_seller_id r) = Some j
       then jsadd (revenue (st ! j)) (Num (amount_of r)) else revenue (st ! j))"
    using s1
  proof (cases rule: record_step_cases)
    case unchanged
    then show ?thesis by (simp add: lookup_prop_Own)
  next
    case (own i)
    then have i: "sellerIndex (record_seller_id r) = Some i" by (simp add: lookup_prop_Own)
    then have "i < length st" using Cons.prems(2) by blast
    then show ?thesis using own(2) i Cons.prems(3)
      by (cases "j = i") (simp_all add: fold_item_step_keeps revenue_counted)
  qed
  have "revenue (st' ! j) =
      foldl jsadd (revenue (s1 ! j))
        (map (\<lambda>r. Num (amount_of r)) (filter (\<lambda>r. sellerIndex (record_seller_id r) = Some j) rs))"
    using Cons.IH [OF rest] Cons.prems(2,3) len by simp
  then show ?case using step by simp
qed

lemma record_step_revenue_sum:
  assumes step: "record_step or_zero guarded calcRevenue sellerIndex productIndex st r = Inr st'"
    and idx: "\<forall>k i. sellerIndex k = Some i \<longrightarrow> i < length st"
    and nums: "\<forall>s\<in>set st. is_number (revenue s)"
  shows "(\<forall>s\<in>set st'. is_number (revenue s))
    \<and> sum_list (map (\<lambda>s. the_rat (revenue s)) st') =
        sum_list (map (\<lambda>s. the_rat (revenue s)) st)
        + (if sellerIndex (record_seller_id r) = None then 0 else amount_of r)"
  using step
proof (cases rule: record_step_cases)
  case unchanged
  then have "sellerIndex (record_seller_id r) = None"
    by (cases "sellerIndex (record_seller_id r)") (simp_all add: lookup_prop_Own)
  then show ?thesis using unchanged nums by simp
next
  case (own i)
  then have i: "sellerIndex (record_seller_id r) = Some i" by (simp add: lookup_prop_Own)
  then have len: "i < length st" using idx by blast
  then have "is_number (revenue (st ! i))" using nums by simp
  then obtain q where q: "revenue (st ! i) = Num q" by (cases "revenue (st ! i)") auto
  define s' where "s' = fold (\<lambda>it s. item_step or_zero calcRevenue productIndex s it)
      (case items r of None \<Rightarrow> [] | Some its \<Rightarrow> its) (counted or_zero (st ! i) r)"
  have st': "st' = st[i := s']" using own(2) by (simp add: s'_def)
  have rev: "revenue s' = Num (q + amount_of r)"
    by (simp add: s'_def fold_item_step_keeps revenue_counted q)
  have "\<forall>s\<in>set (st[i := s']). is_number (revenue s)"
    using nums by (rule all_list_update) (simp add: rev)
  moreover have "sum_list (map (\<lambda>s. the_rat (revenue s)) (st[i := s'])) =
      sum_list (map (\<lambda>s. the_rat (revenue s)) st) + amount_of r"
    using len by (simp add: sum_list_map_update rev q)
  ultimately show ?thesis using i st' by simp
qed

lemma loop_revenue_sum:
  assumes "forEach_raising (record_step or_zero guarded calcRevenue sellerIndex productIndex) rs st = Inr st'"
    and "\<forall>k i. sellerIndex k = Some i \<longrightarrow> i < length st"
    and "\<forall>s\<in>set st. is_number (revenue s)"
  shows "(\<forall>s\<in>set st'. is_number (revenue s))
    \<and> sum_list (map (\<lambda>s. the_rat (revenue s)) st') =
        sum_list (map (\<lambda>s. the_rat (revenue s)) st)
        + sum_list (map amount_of (filter (\<lambda>r. sellerIndex (record_seller_id r) \<noteq> None) rs))"
  using assms
proof (induction rs arbitrary: st)
  case Nil
  then show ?case by simp
next
  case (Cons r rs)
  from Cons.prems(1) obtain s1
    where s1: "record_step or_zero guarded calcRevenue sellerIndex productIndex st r = Inr s1"
      and rest: "forEach_raising (record_step or_zero guarded calcRevenue sellerIndex productIndex) rs s1 = Inr st'"
    by (auto split: sum.splits)
  note one = record_step_revenue_sum [OF s1 Cons.prems(2,3)]
  have idx: "\<forall>k i. sellerIndex k = Some i \<longrightarrow> i < length s1"
    using Cons.prems(2) record_step_length [OF s1] by simp
  have nums: "\<forall>s\<in>set s1. is_number (revenue s)" using one by blast
  from Cons.IH [OF rest idx nums] one show ?case by (simp add: add.assoc)
qed

lemma record_step_revenue_int:
  assumes step: "record_step or_zero guarded calcRevenue sellerIndex productIndex st r = Inr st'"
    and idx: "\<forall>k i. sellerIndex k = Some i \<longrightarrow> i < length st"
    and ints: "\<forall>s\<in>set st. \<exists>n. revenue s = Num (of_int n)"
    and amount: "amount_of r \<in> \<int>"
  shows "\<forall>s\<in>set st'. \<exists>n. revenue s = Num (of_int n)"
  using step
proof (cases rule: record_step_cases)
  case unchanged
  then show ?thesis using ints by simp
next
  case (own i)
  then have "i < length st" using idx by (simp add: lookup_prop_Own)
  then obtain n where n: "revenue (st ! i) = Num (of_int n)" using ints by force
  from amount obtain m where m: "amount_of r = of_int m" by (auto elim: Ints_cases)
  have "revenue (fold (\<lambda>it s. item_step or_zero calcRevenue productIndex s it)
      (case items r of None \<Rightarrow> [] | Some its \<Rightarrow> its) (counted or_zero (st ! i) r)) = Num (of_int (n + m))"
    by (simp add: fold_item_step_keeps revenue_counted n m)
  then show ?thesis unfolding own(2) using ints by (intro all_list_update) blast+
qed

lemma toFixed2_int: "toFixed2 (Num (of_int n)) = Num (of_int n)"
proof -
  have "\<lfloor>\<bar>rat_of_int n\<bar> * 100 + 1 / 2\<rfloor> = \<bar>n\<bar> * 100"
    by (rule floor_unique) simp_all
  moreover have "sgn (rat_of_int n) * rat_of_int (\<bar>n\<bar> * 100) / 100 = rat_of_int n"
    by (simp add: sgn_if)
  ultimately show ?thesis by simp
qed

lemma exact_revenue_total:
  assumes run: "forEach_raising (record_step or_zero guarded calcRevenue sellerIndex productIndex) rs st = Inr st'"
    and idx: "\<forall>k i. sellerIndex k = Some i \<longrightarrow> i < length st"
    and zero: "\<forall>s\<in>set st. revenue s = Num 0"
    and ints: "\<forall>r\<in>set rs. amount_of r \<in> \<int>"
  shows "jssum (map (\<lambda>s. toFixed2 (revenue s)) (sort_sellers st')) =
     Num (sum_list (map amount_of (filter (\<lambda>r. sellerIndex (record_seller_id r) \<noteq> None) rs)))"
proof -
  have nums0: "\<forall>s\<in>set st. is_number (revenue s)" using zero by simp
  have ints0: "\<forall>s\<in>set st. \<exists>n. revenue s = Num (of_int n)"
  proof
    fix s assume "s \<in> set st"
    then have "revenue s = Num (of_int 0)" using zero by simp
    then show "\<exists>n. revenue s = Num (of_int n)" by blast
  qed
  have sum0: "sum_list (map (\<lambda>s. the_rat (revenue s)) st) = 0"
    using zero by (induction st) simp_all
  note total = loop_revenue_sum [OF run idx nums0]
  have ints': "\<forall>s\<in>set st'. \<exists>n. revenue s = Num (of_int n)"
  proof (rule forEach_raising_invariant [where I = "\<lambda>s. length s = length st \<and> (\<forall>x\<in>set s. \<exists>n. revenue x = Num (of_int n))", OF run, THEN conjunct2])
    show "length st = length st \<and> (\<forall>x\<in>set st. \<exists>n. revenue x = Num (of_int n))"
      using ints0 by simp
  next
    fix s r s'
    assume r: "r \<in> set rs"
      and I: "length s = length st \<and> (\<forall>x\<in>set s. \<exists>n. revenue x = Num (of_int n))"
      and step: "record_step or_zero guarded calcRevenue sellerIndex productIndex s r = Inr s'"
    have "\<forall>k i. sellerIndex k = Some i \<longrightarrow> i < length s" using idx I by simp
    from record_step_revenue_int [OF step this] I r ints record_step_length [OF step]
    show "length s' = length st \<and> (\<forall>x\<in>set s'. \<exists>n. revenue x = Num (of_int n))" by simp
  qed
  have set_sorted: "set (sort_sellers st') = set st'" by (simp add: sort_sellers_def set_js_sort)
  have "map (\<lambda>s. toFixed2 (revenue s)) (sort_sellers st') = map revenue (sort_sellers st')"
  proof (rule map_cong [OF refl])
    fix s assume "s \<in> set (sort_sellers st')"
    then obtain n where "revenue s = Num (of_int n)" using ints' set_sorted by blast
    then show "toFixed2 (revenue s) = revenue s" by (simp only: toFixed2_int)
  qed
  then have "jssum (map (\<lambda>s. toFixed2 (revenue s)) (sort_sellers st')) =
      jssum (map revenue (sort_sellers st'))" by (simp only:)
  also have "\<dots> = Num (sum_list (map (\<lambda>s. the_rat (revenue s)) (sort_sellers st')))"
    using jssum_Num [of "map revenue (sort_sellers st')"] total set_sorted by (simp add: comp_def)
  also have "\<dots> = Num (sum_list (map (\<lambda>s. the_rat (revenue s)) st'))"
    by (simp add: sort_sellers_def sum_list_js_sort)
  also have "\<dots> = Num (sum_list (map amount_of (filter (\<lambda>r. sellerIndex (record_seller_id r) \<noteq> None) rs)))"
    using total sum0 by simp
  finally show ?thesis .
qed

lemma known_seller_filter:
  "filter (\<lambda>r. build_sellerIndex (map init_stat ss) (record_seller_id r) \<noteq> None) rs =
   filter (\<lambda>r. record_seller_id r \<in> set (map id_of ss)) rs"
  by (simp only: sellerIndex_known)

lemma init_stat_revenue: "\<forall>s\<in>set (map init_stat ss). revenue s = Num 0"
  by (simp add: init_stat_def)

lemma aggregate_drop_unknown:
  assumes "purchase_records d = Some (rs1 @ r # rs2)"
    and "record_seller_id r \<notin> set (map id_of ss)"
    and "record_seller_id r \<notin> set inherited_names"
  shows "aggregate calcRevenue ss (d\<lparr>purchase_records := Some (rs1 @ rs2)\<rparr>) = aggregate calcRevenue ss d"
proof -
  have "build_sellerIndex (map init_stat ss) (record_seller_id r) = None"
    using assms(2) sellerIndex_known [of ss "record_seller_id r"] by blast
  then have "lookup_prop (build_sellerIndex (map init_stat ss)) (record_seller_id r) = Missing"
    using assms(3) by (simp add: lookup_prop_Missing)
  then have skip: "record_step or_zero True calcRevenue (build_sellerIndex (map init_stat ss))
      (build_productIndex (products_of d)) st r = Inr st" for st
    by (rule record_step_Missing)
  have "records_of d = rs1 @ r # rs2" using assms(1) by (simp add: records_of_def)
  moreover have "records_of (d\<lparr>purchase_records := Some (rs1 @ rs2)\<rparr>) = rs1 @ rs2"
    by (simp add: records_of_def)
  moreover have "products_of (d\<lparr>purchase_records := Some (rs1 @ rs2)\<rparr>) = products_of d"
    by (simp add: products_of_def)
  ultimately show ?thesis
    by (simp add: aggregate_eq forEach_raising_append skip split: sum.splits)
qed

text \<open>
  C8, amended, for \<open>main.js\<close>: on an input accepted by validation on which the call
  returns a report, with no seller identifier and no product SKU equal to
  \<open>__proto__\<close>, the revenue field of a report row is the accumulated revenue of its
  seller rounded to two decimals, and a purchase record whose \<open>seller_id\<close> is neither
  the identifier of a listed seller nor the name of a member inherited from
  \<open>Object.prototype\<close> can be removed from the input without changing the result.
  When moreover every \<open>total_amount\<close> is an integer (a missing one counting as \<open>0\<close>) and
  their absolute values add up to at most \<open>2^53\<close>, so that every addition is exact, the
  accumulated revenue of a seller is the sum of \<open>total_amount\<close> over the records
  attributed to that seller, and the revenue fields of the report, as well as the
  accumulated revenues, add up to the sum of \<open>total_amount\<close> over the records whose
  \<open>seller_id\<close> is the identifier of a listed seller.
\<close>

theorem accumulated_revenue_conservation:
  assumes "sellers d = Some ss" and "ss \<noteq> []"
    and "calculateBonus opts = Some calcBonus" and "calculateRevenue opts = Some calcRevenue"
    and "plain_keys ss (products_of d)"
    and "aggregate calcRevenue ss d = Inr stats"
  shows "analyzeSalesData (Some d) (Object_options opts) = Inr (build_report calcBonus (sort_sellers stats))
    \<and> map report_revenue (build_report calcBonus (sort_sellers stats)) =
        map (\<lambda>s. toFixed2 (revenue s)) (sort_sellers stats)
    \<and> (purchase_records d = Some (rs1 @ r # rs2) \<and> record_seller_id r \<notin> set (map id_of ss)
         \<and> record_seller_id r \<notin> set inherited_names \<longrightarrow>
       analyzeSalesData (Some (d\<lparr>purchase_records := Some (rs1 @ rs2)\<rparr>)) (Object_options opts) =
         analyzeSalesData (Some d) (Object_options opts))
    \<and> (exact_amounts (records_of d) \<longrightarrow>
         (j < length ss \<longrightarrow>
            revenue (stats ! j) = Num (sum_list (map amount_of (records_for ss (records_of d) j))))
         \<and> jssum (map revenue stats) = Num (known_seller_total ss (records_of d))
         \<and> jssum (map report_revenue (build_report calcBonus (sort_sellers stats))) =
             Num (known_seller_total ss (records_of d)))"
proof (intro conjI impI)
  note run = assms(6) [unfolded aggregate_eq]
  show "analyzeSalesData (Some d) (Object_options opts) = Inr (build_report calcBonus (sort_sellers stats))"
    using analyzeSalesData_run [OF assms(1-4)] assms(6) by simp
  show "map report_revenue (build_report calcBonus (sort_sellers stats)) =
      map (\<lambda>s. toFixed2 (revenue s)) (sort_sellers stats)"
    by (rule map_report_revenue)
  show "analyzeSalesData (Some (d\<lparr>purchase_records := Some (rs1 @ rs2)\<rparr>)) (Object_options opts) =
      analyzeSalesData (Some d) (Object_options opts)"
    if "purchase_records d = Some (rs1 @ r # rs2) \<and> record_seller_id r \<notin> set (map id_of ss)
         \<and> record_seller_id r \<notin> set inherited_names"
  proof -
    have "aggregate calcRevenue ss (d\<lparr>purchase_records := Some (rs1 @ rs2)\<rparr>) = aggregate calcRevenue ss d"
      using that aggregate_drop_unknown [of d rs1 r rs2 ss calcRevenue] by blast
    moreover have "sellers (d\<lparr>purchase_records := Some (rs1 @ rs2)\<rparr>) = Some ss"
      using assms(1) by simp
    ultimately show ?thesis
      using analyzeSalesData_run [OF _ assms(2-4), of "d\<lparr>purchase_records := Some (rs1 @ rs2)\<rparr>"]
        analyzeSalesData_run [OF assms(1-4)] by simp
  qed
  show "revenue (stats ! j) = Num (sum_list (map amount_of (records_for ss (records_of d) j)))"
    if "exact_amounts (records_of d)" and "j < length ss"
  proof -
    have "revenue (stats ! j) =
        foldl jsadd (revenue (map init_stat ss ! j))
          (map (\<lambda>r. Num (amount_of r)) (records_for ss (records_of d) j))"
      unfolding records_for_def using run sellerIndex_bound
      by (rule loop_revenue) (simp add: that(2))
    moreover have "revenue (map init_stat ss ! j) = Num 0"
      using that(2) by (simp add: init_stat_def)
    ultimately show ?thesis by (simp add: foldl_jsadd_Num comp_def)
  qed
  have ints: "\<forall>r\<in>set (records_of d). amount_of r \<in> \<int>" if "exact_amounts (records_of d)"
  proof
    fix r assume "r \<in> set (records_of d)"
    then have "rat_of_int \<lfloor>amount_of r\<rfloor> = amount_of r"
      using that by (simp add: exact_amounts_def list_all_iff)
    then show "amount_of r \<in> \<int>" by (metis Ints_of_int)
  qed
  show "jssum (map report_revenue (build_report calcBonus (sort_sellers stats))) =
      Num (known_seller_total ss (records_of d))"
    if "exact_amounts (records_of d)"
    using exact_revenue_total [OF run sellerIndex_bound init_stat_revenue ints [OF that]]
    by (simp only: map_report_revenue known_seller_total_def known_seller_filter)
  show "jssum (map revenue stats) = Num (known_seller_total ss (records_of d))"
    if "exact_amounts (records_of d)"
  proof -
    have nums0: "\<forall>s\<in>set (map init_stat ss). is_number (revenue s)" by (simp add: init_stat_def)
    have sum0: "sum_list (map (\<lambda>s. the_rat (revenue s)) (map init_stat ss)) = 0"
      by (induction ss) (simp_all add: init_stat_def)
    note total = loop_revenue_sum [OF run sellerIndex_bound nums0]
    have "jssum (map revenue stats) = Num (sum_list (map (\<lambda>s. the_rat (revenue s)) stats))"
      using jssum_Num [of "map revenue stats"] total by (simp add: comp_def)
    then show ?thesis using total sum0
      by (simp only: known_seller_total_def known_seller_filter) simp
  qed
qed

lemma aggregate_data_unknown_record:
  "aggregate calculateSimpleRevenue [sellerA, sellerB] data_unknown_record = Inr stats_unknown_record"
  by code_simp

theorem accumulated_revenue_conservation_witness:
  "exact_amounts (records_of data_unknown_record)
   \<and> analyzeSalesData (Some data_unknown_record) (Object_options default_options) =
       Inr (build_report calculateBonusByProfit (sort_sellers stats_unknown_record))
   \<and> map report_revenue (build_report calculateBonusByProfit (sort_sellers stats_unknown_record)) =
       [Num 107, Num 30]
   \<and> analyzeSalesData (Some (data_unknown_record\<lparr>purchase_records := Some (records_before @ records_after)\<rparr>))
         (Object_options default_options) =
       analyzeSalesData (Some data_unknown_record) (Object_options default_options)
   \<and> revenue (stats_unknown_record ! 1) =
       Num (sum_list (map amount_of (records_for [sellerA, sellerB] (records_of data_unknown_record) 1)))
   \<and> map amount_of (records_for [sellerA, sellerB] (records_of data_unknown_record) 1) = [100, 7]
   \<and> jssum (map revenue stats_unknown_record) =
       Num (known_seller_total [sellerA, sellerB] (records_of data_unknown_record))
   \<and> jssum (map report_revenue (build_report calculateBonusByProfit (sort_sellers stats_unknown_record))) =
       Num (known_seller_total [sellerA, sellerB] (records_of data_unknown_record))
   \<and> known_seller_total [sellerA, sellerB] (records_of data_unknown_record) = 137"
proof -
  have h1: "sellers data_unknown_record = Some [sellerA, sellerB]"
    by (simp add: data_unknown_record_def)
  have h2: "[sellerA, sellerB] \<noteq> []" by simp
  have h3: "calculateBonus default_options = Some calculateBonusByProfit"
    by (simp add: default_options_def)
  have h4: "calculateRevenue default_options = Some calculateSimpleRevenue"
    by (simp add: default_options_def)
  have h5: "plain_keys [sellerA, sellerB] (products_of data_unknown_record)"
    by code_simp
  have p1: "purchase_records data_unknown_record =
        Some (records_before @ record_unknown_seller # records_after)
      \<and> record_seller_id record_unknown_seller \<notin> set (map id_of [sellerA, sellerB])
      \<and> record_seller_id record_unknown_seller \<notin> set inherited_names"
    by (simp add: data_unknown_record_def record_unknown_seller_def sellerA_def sellerB_def
        inherited_names_def)
  have p2: "exact_amounts (records_of data_unknown_record)"
    by code_simp
  have p3: "(1::nat) < length [sellerA, sellerB]" by simp
  have e1: "map report_revenue (build_report calculateBonusByProfit (sort_sellers stats_unknown_record)) =
      [Num 107, Num 30]"
    by code_simp
  have e2: "map amount_of (records_for [sellerA, sellerB] (records_of data_unknown_record) 1) = [100, 7]"
    by code_simp
  have e3: "known_seller_total [sellerA, sellerB] (records_of data_unknown_record) = 137"
    by code_simp
  from accumulated_revenue_conservation [OF h1 h2 h3 h4 h5 aggregate_data_unknown_record,
      of records_before record_unknown_seller records_after 1] p1 p2 p3 e1 e2 e3
  show ?thesis by blast
qed

section \<open>Top products\<close>

lemma aggregate_data_twelve_skus:
  "aggregate calculateSimpleRevenue [sellerA, sellerB] data_twelve_skus = Inr stats_twelve_skus"
  by code_simp

lemma aggregate_part000_data_twelve_skus:
  "aggregate_part000 calculateSimpleRevenue [sellerA, sellerB] (products_of data_twelve_skus)
     (records_of data_twelve_skus) = Inr stats_twelve_skus"
  by code_simp

lemma analyze_data_twelve_skus:
  "analyzeSalesData (Some data_twelve_skus) (Object_options default_options) = Inr report_twelve_skus"
  by code_simp

lemma analyze_part000_data_twelve_skus:
  "analyzeSalesData_part000 (Some data_twelve_skus) (Object_options default_options) = Inr report_twelve_skus"
  by code_simp

text \<open>
  C9, as stated: entries of \<open>top_products\<close> with equal quantity appear in the order in
  which their SKUs first occurred in the processed items of the seller. The list is built
  from \<open>Object.entries(seller.products_sold)\<close>, which lists keys that are array indices
  first, in ascending numeric order. A seller who sold one unit of SKU \<open>1002\<close> and then one
  unit of SKU \<open>1001\<close> gets \<open>1001\<close> before \<open>1002\<close>, in both files.
\<close>

theorem top_products_tie_order_counterexample:
  "analyzeSalesData (Some data_numeric_skus) (Object_options default_options) =
     Inr [\<lparr>report_seller_id = ''seller_1'', report_name = ''Alexey Petrov'', report_revenue = Num 40,
           report_profit = Num 20, report_sales_count = 1,
           report_top_products = [(''1001'', Number (Num 1)), (''1002'', Number (Num 1))],
           report_bonus = Num 3\<rparr>]
   \<and> analyzeSalesData_part000 (Some data_numeric_skus) (Object_options default_options) =
       analyzeSalesData (Some data_numeric_skus) (Object_options default_options)
   \<and> processed_skus [sellerA] (products_of data_numeric_skus) (records_of data_numeric_skus) 0 =
       [''1002'', ''1001'']"
  by code_simp

lemma map_report_top_products:
  "map report_top_products (build_report calcBonus sts) = map (\<lambda>s. top_products_of (products_sold s)) sts"
proof -
  have "map report_top_products (build_report calcBonus sts) =
      map (\<lambda>(i, s). top_products_of (products_sold s)) (enumerate 0 sts)"
    by (simp add: build_report_def make_report_def split_def)
  then show ?thesis by (simp only: map_enumerate_snd)
qed

lemma is_quantity_number: "is_quantity v \<Longrightarrow> is_number (val_number v)"
  by (cases v) simp_all

lemma top_products_of_props:
  assumes "\<forall>e\<in>set sold. is_quantity (snd e)"
  shows "sorted_wrt (\<lambda>a b. jsge (val_number (snd a)) (val_number (snd b))) (top_products_of sold)"
    and "prefix (filter (\<lambda>e. val_number (snd e) = q) (top_products_of sold))
           (filter (\<lambda>e. val_number (snd e) = q) (object_entries sold))"
proof -
  have nums: "\<forall>e\<in>set (object_entries sold). is_number (val_number (snd e))"
    using assms by (simp add: set_object_entries is_quantity_number)
  have "sorted_wrt (\<lambda>a b. jsge (val_number (snd a)) (val_number (snd b)))
      (js_sort (\<lambda>a b. jssub (val_number (snd b)) (val_number (snd a))) (object_entries sold))"
    using nums by (rule js_sort_descending)
  then show "sorted_wrt (\<lambda>a b. jsge (val_number (snd a)) (val_number (snd b))) (top_products_of sold)"
    unfolding top_products_of_def by (rule sorted_wrt_take)
  have "filter (\<lambda>e. val_number (snd e) = q)
        (js_sort (\<lambda>a b. jssub (val_number (snd b)) (val_number (snd a))) (object_entries sold)) =
      filter (\<lambda>e. val_number (snd e) = q) (object_entries sold)"
    using nums by (rule js_sort_stable)
  then show "prefix (filter (\<lambda>e. val_number (snd e) = q) (top_products_of sold))
      (filter (\<lambda>e. val_number (snd e) = q) (object_entries sold))"
    unfolding top_products_of_def using prefix_filter_take by metis
qed

text \<open>
  The keys of \<open>products_sold\<close> are created in the order in which the SKUs other than
  \<open>__proto__\<close> first occur in the processed items.
\<close>

lemma fold_item_step_keys:
  assumes "map fst (products_sold s) = first_occurrence_order (filter (\<lambda>k. k \<noteq> ''__proto__'') xs)"
  shows "map fst (products_sold (fold (\<lambda>it s. item_step dflt calcRevenue productIndex s it) its s)) =
    first_occurrence_order
      (filter (\<lambda>k. k \<noteq> ''__proto__'')
         (xs @ map item_sku (filter (\<lambda>it. product_at productIndex (item_sku it) \<noteq> None) its)))"
  using assms
proof (induction its arbitrary: s xs)
  case Nil
  then show ?case by simp
next
  case (Cons it its)
  let ?known = "\<lambda>it. product_at productIndex (item_sku it) \<noteq> None"
  let ?np = "\<lambda>k. k \<noteq> ''__proto__''"
  have keys: "set (map fst (products_sold s)) = set (filter ?np xs)"
    using Cons.prems by (simp only: set_first_occurrence_order)
  have step: "map fst (products_sold (item_step dflt calcRevenue productIndex s it)) =
      first_occurrence_order (filter ?np (xs @ map item_sku (filter ?known [it])))"
  proof (cases "?known it \<and> item_sku it \<noteq> ''__proto__''")
    case True
    then have "filter ?np (xs @ map item_sku (filter ?known [it])) = filter ?np xs @ [item_sku it]"
      by simp
    then show ?thesis
      using True keys Cons.prems by (simp only: keys_item_step first_occurrence_order_snoc) auto
  next
    case False
    then have "filter ?np (xs @ map item_sku (filter ?known [it])) = filter ?np xs"
      by auto
    then show ?thesis using False Cons.prems by (simp only: keys_item_step) auto
  qed
  from Cons.IH [OF step] show ?case by simp
qed

lemma loop_keys:
  assumes "forEach_raising (record_step dflt guarded calcRevenue sellerIndex productIndex) rs st = Inr st'"
    and "\<forall>k i. sellerIndex k = Some i \<longrightarrow> i < length st"
    and "j < length st"
    and "map fst (products_sold (st ! j)) = first_occurrence_order (filter (\<lambda>k. k \<noteq> ''__proto__'') xs)"
  shows "map fst (products_sold (st' ! j)) =
    first_occurrence_order
      (filter (\<lambda>k. k \<noteq> ''__proto__'')
         (xs @ concat (map (\<lambda>r. case items r of
                                   None \<Rightarrow> []
                                 | Some its \<Rightarrow>
                                     map item_sku
                                       (filter (\<lambda>it. product_at productIndex (item_sku it) \<noteq> None) its))
                         (filter (\<lambda>r. sellerIndex (record_seller_id r) = Some j) rs))))"
  using assms
proof (induction rs arbitrary: st xs)
  case Nil
  then show ?case by simp
next
  case (Cons r rs)
  let ?skus = "\<lambda>r. case items r of
                     None \<Rightarrow> []
                   | Some its \<Rightarrow>
                       map item_sku (filter (\<lambda>it. product_at productIndex (item_sku it) \<noteq> None) its)"
  let ?np = "\<lambda>k. k \<noteq> ''__proto__''"
  from Cons.prems(1) obtain s1
    where s1: "record_step dflt guarded calcRevenue sellerIndex productIndex st r = Inr s1"
      and rest: "forEach_raising (record_step dflt guarded calcRevenue sellerIndex productIndex) rs s1 = Inr st'"
    by (auto split: sum.splits)
  have len: "length s1 = length st" using s1 by (rule record_step_length)
  have step: "map fst (products_sold (s1 ! j)) =
      first_occurrence_order
        (filter ?np (xs @ (if sellerIndex (record_seller_id r) = Some j then ?skus r else [])))"
    using s1
  proof (cases rule: record_step_cases)
    case unchanged
    then show ?thesis using Cons.prems(4) by (simp add: lookup_prop_Own)
  next
    case (own i)
    then have i: "sellerIndex (record_seller_id r) = Some i" by (simp add: lookup_prop_Own)
    show ?thesis
    proof (cases "i = j")
      case True
      have c: "map fst (products_sold (counted dflt (st ! j) r)) = first_occurrence_order (filter ?np xs)"
        using Cons.prems(4) by (simp add: counted_def)
      have "map fst (products_sold
              (fold (\<lambda>it s. item_step dflt calcRevenue productIndex s it)
                 (case items r of None \<Rightarrow> [] | Some its \<Rightarrow> its) (counted dflt (st ! j) r))) =
          first_occurrence_order (filter ?np (xs @ ?skus r))"
      proof (cases "items r")
        case None
        then show ?thesis using c by simp
      next
        case (Some its)
        have "map fst (products_sold
                (fold (\<lambda>it s. item_step dflt calcRevenue productIndex s it) its (counted dflt (st ! j) r))) =
            first_occurrence_order
              (filter ?np
                 (xs @ map item_sku (filter (\<lambda>it. product_at productIndex (item_sku it) \<noteq> None) its)))"
          using c by (rule fold_item_step_keys)
        then show ?thesis by (simp only: Some option.case)
      qed
      then show ?thesis using own(2) i True Cons.prems(3) by simp
    next
      case False
      then show ?thesis using own(2) i Cons.prems(3,4) by simp
    qed
  qed
  have idx: "\<forall>k i. sellerIndex k = Some i \<longrightarrow> i < length s1" using Cons.prems(2) len by simp
  have j: "j < length s1" using Cons.prems(3) len by simp
  have "map fst (products_sold (st' ! j)) =
      first_occurrence_order
        (filter ?np
           ((xs @ (if sellerIndex (record_seller_id r) = Some j then ?skus r else []))
            @ concat (map ?skus (filter (\<lambda>r. sellerIndex (record_seller_id r) = Some j) rs))))"
    using rest idx j step by (rule Cons.IH)
  then show ?case by (cases "sellerIndex (record_seller_id r) = Some j") simp_all
qed

lemma init_stat_keys:
  "j < length ss \<Longrightarrow>
   map fst (products_sold (map init_stat ss ! j)) =
     first_occurrence_order (filter (\<lambda>k. k \<noteq> ''__proto__'') [])"
  by (simp add: init_stat_def first_occurrence_order_def)

text \<open>
  C9, amended, for both files: take an input accepted by validation on which the call
  returns a report, with no seller identifier and no product SKU equal to \<open>__proto__\<close>.
  Every \<open>top_products\<close> list of the report has at most 10 entries. For a seller all of
  whose accumulated quantities are numbers (none is \<open>NaN\<close>, none is a string),
  \<open>top_products\<close> is in descending order of cumulative quantity, and its entries with
  equal quantity are the first of the entries with that quantity in the order of
  \<open>Object.entries(products_sold)\<close>: SKUs that are array indices first, in ascending
  numeric order, then the other SKUs in the order in which the keys were created. The
  keys are created in the order in which the SKUs other than \<open>__proto__\<close> first occur in
  the processed items of the seller; so when no SKU sold by the seller is an array index,
  entries with equal quantity appear in first-occurrence order.
\<close>

theorem top_products_sorted_stable:
  assumes "sellers d = Some ss" and "ss \<noteq> []"
    and "calculateBonus opts = Some calcBonus" and "calculateRevenue opts = Some calcRevenue"
    and "plain_keys ss (products_of d)"
    and "analyzeSalesData (Some d) (Object_options opts) = Inr report
           \<and> aggregate calcRevenue ss d = Inr stats
         \<or> analyzeSalesData_part000 (Some d) (Object_options opts) = Inr report
           \<and> aggregate_part000 calcRevenue ss (products_of d) (records_of d) = Inr stats"
    and "j < length ss"
    and "\<forall>e\<in>set (products_sold (stats ! j)). is_quantity (snd e)"
  shows "report = build_report calcBonus (sort_sellers stats)
    \<and> map report_top_products report = map (\<lambda>s. top_products_of (products_sold s)) (sort_sellers stats)
    \<and> mset (sort_sellers stats) = mset stats
    \<and> map seller_id stats = map id_of ss
    \<and> list_all (\<lambda>row. length (report_top_products row) \<le> 10) report
    \<and> sorted_wrt (\<lambda>a b. jsge (val_number (snd a)) (val_number (snd b)))
         (top_products_of (products_sold (stats ! j)))
    \<and> prefix (filter (\<lambda>e. val_number (snd e) = q) (top_products_of (products_sold (stats ! j))))
         (filter (\<lambda>e. val_number (snd e) = q) (object_entries (products_sold (stats ! j))))
    \<and> (\<not> list_ex is_array_index (map fst (products_sold (stats ! j))) \<longrightarrow>
         object_entries (products_sold (stats ! j)) = products_sold (stats ! j))
    \<and> map fst (products_sold (stats ! j)) =
        first_occurrence_order
          (filter (\<lambda>k. k \<noteq> ''__proto__'') (processed_skus ss (products_of d) (records_of d) j))"
proof -
  note either = report_of_either_variant [OF assms(1-4,6)]
  note rep = either(1) and ids = either(2) and run = either(3)
  have tops: "map report_top_products report =
      map (\<lambda>s. top_products_of (products_sold s)) (sort_sellers stats)"
    unfolding rep by (rule map_report_top_products)
  have "\<forall>row\<in>set report. length (report_top_products row) \<le> 10"
  proof
    fix row assume "row \<in> set report"
    then have "report_top_products row \<in> set (map report_top_products report)" by simp
    then have "report_top_products row \<in>
        set (map (\<lambda>s. top_products_of (products_sold s)) (sort_sellers stats))"
      by (simp only: tops)
    then show "length (report_top_products row) \<le> 10" by (auto simp: top_products_of_def)
  qed
  then have ten: "list_all (\<lambda>row. length (report_top_products row) \<le> 10) report"
    by (simp only: list_all_iff)
  have noidx: "object_entries (products_sold (stats ! j)) = products_sold (stats ! j)"
    if "\<not> list_ex is_array_index (map fst (products_sold (stats ! j)))"
    using that by (intro object_entries_no_index) (simp add: list_ex_iff)
  from run obtain dflt guarded where loop:
    "forEach_raising
       (record_step dflt guarded calcRevenue (build_sellerIndex (map init_stat ss))
          (build_productIndex (products_of d)))
       (records_of d) (map init_stat ss) = Inr stats"
    by blast
  have j: "j < length (map init_stat ss)" using assms(7) by simp
  have keys: "map fst (products_sold (stats ! j)) =
      first_occurrence_order
        (filter (\<lambda>k. k \<noteq> ''__proto__'') (processed_skus ss (products_of d) (records_of d) j))"
    using loop_keys [OF loop sellerIndex_bound j init_stat_keys [OF assms(7)]]
    by (simp add: processed_skus_def records_for_def)
  note props = top_products_of_props [OF assms(8)]
  have perm: "mset (sort_sellers stats) = mset stats"
    by (simp add: sort_sellers_def mset_js_sort)
  from rep tops perm ids ten props(1) props(2) [of q] noidx keys
  show ?thesis by blast
qed

theorem top_products_sorted_stable_witness:
  "list_all (\<lambda>e. is_quantity (snd e)) (products_sold (stats_twelve_skus ! 1))
   \<and> analyzeSalesData (Some data_twelve_skus) (Object_options default_options) = Inr report_twelve_skus
   \<and> analyzeSalesData_part000 (Some data_twelve_skus) (Object_options default_options) =
       Inr report_twelve_skus
   \<and> report_twelve_skus = build_report calculateBonusByProfit (sort_sellers stats_twelve_skus)
   \<and> map report_top_products report_twelve_skus =
       map (\<lambda>s. top_products_of (products_sold s)) (sort_sellers stats_twelve_skus)
   \<and> list_all (\<lambda>row. length (report_top_products row) \<le> 10) report_twelve_skus
   \<and> length (products_sold (stats_twelve_skus ! 1)) = 12
   \<and> top_products_of (products_sold (stats_twelve_skus ! 1)) = top_twelve_skus
   \<and> sorted_wrt (\<lambda>a b. jsge (val_number (snd a)) (val_number (snd b)))
        (top_products_of (products_sold (stats_twelve_skus ! 1)))
   \<and> prefix (filter (\<lambda>e. val_number (snd e) = Num 1) (top_products_of (products_sold (stats_twelve_skus ! 1))))
        (filter (\<lambda>e. val_number (snd e) = Num 1) (object_entries (products_sold (stats_twelve_skus ! 1))))
   \<and> map fst (filter (\<lambda>e. val_number (snd e) = Num 1) top_twelve_skus) = [''SKU_004'', ''SKU_008'']
   \<and> map fst (filter (\<lambda>e. val_number (snd e) = Num 1) (products_sold (stats_twelve_skus ! 1))) =
       [''SKU_004'', ''SKU_008'', ''SKU_011'', ''SKU_012'']
   \<and> map fst (filter (\<lambda>e. val_number (snd e) = Num 2) top_twelve_skus) =
       [''SKU_003'', ''SKU_002'', ''SKU_006'']
   \<and> object_entries (products_sold (stats_twelve_skus ! 1)) = products_sold (stats_twelve_skus ! 1)
   \<and> map fst (products_sold (stats_twelve_skus ! 1)) =
       first_occurrence_order
         (filter (\<lambda>k. k \<noteq> ''__proto__'')
            (processed_skus [sellerA, sellerB] (products_of data_twelve_skus)
               (records_of data_twelve_skus) 1))
   \<and> processed_skus [sellerA, sellerB] (products_of data_twelve_skus) (records_of data_twelve_skus) 1 =
       [''SKU_003'', ''SKU_001'', ''SKU_002'', ''SKU_004'', ''SKU_005'', ''SKU_006'', ''SKU_007'',
        ''SKU_008'', ''SKU_009'', ''SKU_010'', ''SKU_011'', ''SKU_012'', ''SKU_001'']"
proof -
  have h1: "sellers data_twelve_skus = Some [sellerA, sellerB]"
    by (simp add: data_twelve_skus_def)
  have h2: "[sellerA, sellerB] \<noteq> []" by simp
  have h3: "calculateBonus default_options = Some calculateBonusByProfit"
    by (simp add: default_options_def)
  have h4: "calculateRevenue default_options = Some calculateSimpleRevenue"
    by (simp add: default_options_def)
  have h5: "plain_keys [sellerA, sellerB] (products_of data_twelve_skus)"
    by code_simp
  have h6: "analyzeSalesData (Some data_twelve_skus) (Object_options default_options) = Inr report_twelve_skus
        \<and> aggregate calculateSimpleRevenue [sellerA, sellerB] data_twelve_skus = Inr stats_twelve_skus
      \<or> analyzeSalesData_part000 (Some data_twelve_skus) (Object_options default_options) =
          Inr report_twelve_skus
        \<and> aggregate_part000 calculateSimpleRevenue [sellerA, sellerB] (products_of data_twelve_skus)
            (records_of data_twelve_skus) = Inr stats_twelve_skus"
    using analyze_part000_data_twelve_skus aggregate_part000_data_twelve_skus by (rule disjI2 [OF conjI])
  have h6': "analyzeSalesData (Some data_twelve_skus) (Object_options default_options) = Inr report_twelve_skus
        \<and> aggregate calculateSimpleRevenue [sellerA, sellerB] data_twelve_skus = Inr stats_twelve_skus
      \<or> analyzeSalesData_part000 (Some data_twelve_skus) (Object_options default_options) =
          Inr report_twelve_skus
        \<and> aggregate_part000 calculateSimpleRevenue [sellerA, sellerB] (products_of data_twelve_skus)
            (records_of data_twelve_skus) = Inr stats_twelve_skus"
    using analyze_data_twelve_skus aggregate_data_twelve_skus by (rule disjI1 [OF conjI])
  have h7: "(1::nat) < length [sellerA, sellerB]" by simp
  have h8: "\<forall>e\<in>set (products_sold (stats_twelve_skus ! 1)). is_quantity (snd e)"
    by (simp add: stats_twelve_skus_def sold_twelve_skus_def)
  have p1: "\<not> list_ex is_array_index (map fst (products_sold (stats_twelve_skus ! 1)))"
    by code_simp
  have e1: "length (products_sold (stats_twelve_skus ! 1)) = 12"
    by (simp add: stats_twelve_skus_def sold_twelve_skus_def)
  have e2: "top_products_of (products_sold (stats_twelve_skus ! 1)) = top_twelve_skus"
    by code_simp
  have e3: "map fst (filter (\<lambda>e. val_number (snd e) = Num 1) top_twelve_skus) = [''SKU_004'', ''SKU_008'']"
    by code_simp
  have e4: "map fst (filter (\<lambda>e. val_number (snd e) = Num 1) (products_sold (stats_twelve_skus ! 1))) =
      [''SKU_004'', ''SKU_008'', ''SKU_011'', ''SKU_012'']"
    by code_simp
  have e5: "map fst (filter (\<lambda>e. val_number (snd e) = Num 2) top_twelve_skus) =
      [''SKU_003'', ''SKU_002'', ''SKU_006'']"
    by code_simp
  have e6: "processed_skus [sellerA, sellerB] (products_of data_twelve_skus) (records_of data_twelve_skus) 1 =
      [''SKU_003'', ''SKU_001'', ''SKU_002'', ''SKU_004'', ''SKU_005'', ''SKU_006'', ''SKU_007'',
       ''SKU_008'', ''SKU_009'', ''SKU_010'', ''SKU_011'', ''SKU_012'', ''SKU_001'']"
    by code_simp
  have h8': "list_all (\<lambda>e. is_quantity (snd e)) (products_sold (stats_twelve_skus ! 1))"
    using h8 by (simp only: list_all_iff)
  from top_products_sorted_stable [OF h1 h2 h3 h4 h5 h6 h7 h8, of "Num 1"]
    top_products_sorted_stable [OF h1 h2 h3 h4 h5 h6' h7 h8, of "Num 1"]
    h8' p1 e1 e2 e3 e4 e5 e6 analyze_data_twelve_skus analyze_part000_data_twelve_skus
  show ?thesis by blast
qed

end
